theory Spec2Isabelle
  imports Complex_Main
begin

section \<open>Conventions\<close>

text \<open>
  The notebooks compute with floating-point tensors.  A tensor entry is a real number and
  the formulas are verified in exact real arithmetic, without rounding; the one exception is
  the depth sampling of the renderer, whose property depends on the rounding and which is
  also modelled in single precision.  A one-dimensional tensor is a list of reals; a batch
  is a list of rows.  Exceptions raised by the Python code are values of the type
  \<open>error\<close>.
\<close>

datatype error = IndexError | RuntimeError | ValueError | FileNotFoundError | KeyError | ZeroDivisionError

type_synonym vec = "real list"
type_synonym batch = "real list list"

section \<open>Tensor primitives used by the notebooks\<close>

text \<open>
  \<^verbatim>\<open>torch.linspace(start, end, steps)\<close>: \<open>steps\<close> points from \<open>start\<close> to \<open>end\<close>
  inclusive, spaced by \<open>(end - start) / (steps - 1)\<close>; a single point is \<open>start\<close>.
\<close>

definition linspace :: "real \<Rightarrow> real \<Rightarrow> nat \<Rightarrow> vec" where
  "linspace start stop steps =
     (if steps = 1 then [start]
      else map (\<lambda>i. start + (stop - start) * real i / real (steps - 1)) [0..<steps])"

text \<open>\<^verbatim>\<open>torch.cumsum(x, dim=0)\<close> and \<^verbatim>\<open>torch.cumprod(x, dim=0)\<close> as running folds.\<close>

fun cumsum_from :: "real \<Rightarrow> vec \<Rightarrow> vec" where
  "cumsum_from acc [] = []"
| "cumsum_from acc (x # xs) = (acc + x) # cumsum_from (acc + x) xs"

definition cumsum :: "vec \<Rightarrow> vec" where
  "cumsum xs = cumsum_from 0 xs"

fun cumprod_from :: "real \<Rightarrow> vec \<Rightarrow> vec" where
  "cumprod_from acc [] = []"
| "cumprod_from acc (x # xs) = (acc * x) # cumprod_from (acc * x) xs"

definition cumprod :: "vec \<Rightarrow> vec" where
  "cumprod xs = cumprod_from 1 xs"

section \<open>The DDPM noise schedule (L2\_Training)\<close>

text \<open>
  \<^verbatim>\<open>
  b_t = (beta2 - beta1) * torch.linspace(0, 1, timesteps + 1) + beta1
  a_t = 1 - b_t
  ab_t = torch.cumsum(a_t.log(), dim=0).exp()
  ab_t[0] = 1
  ab_t_alternative = torch.cumprod(a_t, dim=0)
  \<close>
  The same four lines occur in the schedule cell, in
  \<open>compute_noise_schedule_and_distribution\<close> and in \<open>analyze_noise_prediction_theory\<close>.
  The tables always have \<open>timesteps + 1 \<ge> 1\<close> entries, so the assignment to index 0 never
  raises.
\<close>

definition schedule_b :: "real \<Rightarrow> real \<Rightarrow> nat \<Rightarrow> vec" where
  "schedule_b b1 b2 T = map (\<lambda>l. (b2 - b1) * l + b1) (linspace 0 1 (T + 1))"

definition schedule_a :: "real \<Rightarrow> real \<Rightarrow> nat \<Rightarrow> vec" where
  "schedule_a b1 b2 T = map (\<lambda>b. 1 - b) (schedule_b b1 b2 T)"

definition schedule_ab :: "real \<Rightarrow> real \<Rightarrow> nat \<Rightarrow> vec" where
  "schedule_ab b1 b2 T = (map exp (cumsum (map ln (schedule_a b1 b2 T))))[0 := 1]"

definition schedule_ab_alternative :: "real \<Rightarrow> real \<Rightarrow> nat \<Rightarrow> vec" where
  "schedule_ab_alternative b1 b2 T = cumprod (schedule_a b1 b2 T)"

text \<open>
  \<open>compute_noise_schedule_and_distribution\<close> returns the three tables (its printing is
  omitted); its defaults are \<open>beta1 = 1e-4\<close>, \<open>beta2 = 2e-2\<close>, \<open>timesteps = 1000\<close>.
  \<open>analyze_noise_prediction_theory\<close> builds the tables from its own local constants
  \<open>1e-4, 2e-2, 1000\<close> and returns the cumulative one.
\<close>

definition compute_noise_schedule_and_distribution :: "real \<Rightarrow> real \<Rightarrow> nat \<Rightarrow> vec \<times> vec \<times> vec" where
  "compute_noise_schedule_and_distribution b1 b2 T =
     (schedule_b b1 b2 T, schedule_a b1 b2 T, schedule_ab b1 b2 T)"

definition analyze_noise_prediction_theory :: "vec" where
  "analyze_noise_prediction_theory = schedule_ab (1 / 10000) (2 / 100) 1000"

subsection \<open>The notebook's global variables and its cells\<close>

record globals =
  timesteps :: nat
  beta1 :: real
  beta2 :: real
  b_t :: vec
  a_t :: vec
  ab_t :: vec

text \<open>The hyperparameter cell: \<open>timesteps = 500\<close>, \<open>beta1 = 1e-4\<close>, \<open>beta2 = 0.02\<close>.\<close>

definition cell_hyperparameters :: "globals \<Rightarrow> globals" where
  "cell_hyperparameters s = s\<lparr>timesteps := 500, beta1 := 1 / 10000, beta2 := 2 / 100\<rparr>"

text \<open>The schedule cell ("construct DDPM noise schedule").\<close>

definition cell_schedule :: "globals \<Rightarrow> globals" where
  "cell_schedule s =
     s\<lparr>b_t := schedule_b (beta1 s) (beta2 s) (timesteps s),
       a_t := schedule_a (beta1 s) (beta2 s) (timesteps s),
       ab_t := schedule_ab (beta1 s) (beta2 s) (timesteps s)\<rparr>"

text \<open>
  The analysis cell ends with
  \<^verbatim>\<open>b_t, a_t, ab_t = compute_noise_schedule_and_distribution()\<close>
  at module level, called with the defaults.
\<close>

definition cell_noise_schedule_analysis :: "globals \<Rightarrow> globals" where
  "cell_noise_schedule_analysis s =
     (case compute_noise_schedule_and_distribution (1 / 10000) (2 / 100) 1000 of
        (b, a, ab) \<Rightarrow> s\<lparr>b_t := b, a_t := a, ab_t := ab\<rparr>)"

text \<open>The theory cell ends with \<^verbatim>\<open>ab_t = analyze_noise_prediction_theory()\<close>.\<close>

definition cell_noise_prediction_theory :: "globals \<Rightarrow> globals" where
  "cell_noise_prediction_theory s = s\<lparr>ab_t := analyze_noise_prediction_theory\<rparr>"


section \<open>Perturbation and sampling (L2\_Training)\<close>

text \<open>
  A batch of images is a list of rows, one row of pixels per image (the channel, height and
  width axes are flattened, which no operation below distinguishes).  A tensor operation on
  two batches raises \<open>RuntimeError\<close> unless the shapes agree (broadcasting of singleton
  axes between two batches is not used by the notebook and is not modelled).

  \<^verbatim>\<open>
  def perturb_input(x, t, noise):
      return ab_t.sqrt()[t, None, None, None] * x + (1 - ab_t[t, None, None, None]).sqrt() * noise
  \<close>
  \<open>t\<close> is the vector of per-image timestep indices drawn by the training loop; indexing
  the table out of range raises \<open>IndexError\<close>.  The function reads the global \<open>ab_t\<close>.
\<close>

definition perturb_input :: "globals \<Rightarrow> batch \<Rightarrow> nat list \<Rightarrow> batch \<Rightarrow> error + batch" where
  "perturb_input s x t noise =
     (if \<exists>k \<in> set t. length (ab_t s) \<le> k then Inl IndexError
      else if length t \<noteq> length x \<or> map length noise \<noteq> map length x then Inl RuntimeError
      else Inr (map (\<lambda>(k, xb, nb).
                  map2 (\<lambda>xv nv. map sqrt (ab_t s) ! k * xv + sqrt (1 - ab_t s ! k) * nv) xb nb)
                (zip t (zip x noise))))"

text \<open>
  Random draws come from an explicit source: an infinite sequence of samples, consumed from
  the front.  \<^verbatim>\<open>torch.randn_like(x)\<close> takes as many samples as \<open>x\<close> has entries.
\<close>

type_synonym rng = "nat \<Rightarrow> real"

definition draw :: "nat \<Rightarrow> rng \<Rightarrow> vec \<times> rng" where
  "draw n g = (map g [0..<n], \<lambda>k. g (n + k))"

fun draw_rows :: "nat list \<Rightarrow> rng \<Rightarrow> batch \<times> rng" where
  "draw_rows [] g = ([], g)"
| "draw_rows (n # ns) g =
     (case draw n g of (r, g1) \<Rightarrow> case draw_rows ns g1 of (rs, g2) \<Rightarrow> (r # rs, g2))"

definition randn_like :: "batch \<Rightarrow> rng \<Rightarrow> batch \<times> rng" where
  "randn_like x g = draw_rows (map length x) g"

text \<open>
  \<^verbatim>\<open>
  def denoise_add_noise(x, t, pred_noise, z=None):
      if z is None:
          z = torch.randn_like(x)
      noise = b_t.sqrt()[t] * z
      mean = (x - pred_noise * ((1 - a_t[t]) / (1 - ab_t[t]).sqrt())) / a_t[t].sqrt()
      return mean + noise
  \<close>
  The argument \<open>z\<close> is \<open>None\<close>, a tensor, or the Python integer that \<open>sample_ddpm\<close>
  passes at its last step.  \<open>denoise_mean\<close> is the local \<open>mean\<close>, read once the indices
  are known to be in range.
\<close>

datatype znoise = ZNone | ZTensor batch | ZInt int

definition denoise_mean :: "globals \<Rightarrow> nat \<Rightarrow> batch \<Rightarrow> batch \<Rightarrow> batch" where
  "denoise_mean s t x pred_noise =
     map2 (map2 (\<lambda>xv pv.
        (xv - pv * ((1 - a_t s ! t) / sqrt (1 - ab_t s ! t))) / sqrt (a_t s ! t))) x pred_noise"

definition denoise_add_noise ::
  "globals \<Rightarrow> batch \<Rightarrow> nat \<Rightarrow> batch \<Rightarrow> znoise \<Rightarrow> rng \<Rightarrow> error + (batch \<times> rng)" where
  "denoise_add_noise s x t pred_noise z g =
     (case (case z of ZNone \<Rightarrow> (case randn_like x g of (r, g') \<Rightarrow> (ZTensor r, g'))
                    | ZTensor zt \<Rightarrow> (ZTensor zt, g)
                    | ZInt n \<Rightarrow> (ZInt n, g)) of
        (z', g') \<Rightarrow>
          if length (b_t s) \<le> t \<or> length (a_t s) \<le> t \<or> length (ab_t s) \<le> t then Inl IndexError
          else if map length pred_noise \<noteq> map length x then Inl RuntimeError
          else
            let mean = denoise_mean s t x pred_noise
            in (case z' of
                  ZInt n \<Rightarrow> Inr (map (map (\<lambda>m. m + map sqrt (b_t s) ! t * real_of_int n)) mean, g')
                | ZTensor zt \<Rightarrow>
                    if map length zt \<noteq> map length x then Inl RuntimeError
                    else Inr (map2 (map2 (\<lambda>m zv. m + map sqrt (b_t s) ! t * zv)) mean zt, g')
                | ZNone \<Rightarrow> Inl RuntimeError))"

text \<open>
  \<^verbatim>\<open>
  def sample_ddpm(n_sample, save_rate=20):
      samples = torch.randn(n_sample, 3, height, height).to(device)
      intermediate = []
      for i in range(timesteps, 0, -1):
          t = torch.tensor([i / timesteps])[:, None, None, None].to(device)
          z = torch.randn_like(samples) if i > 1 else 0
          eps = nn_model(samples, t)
          samples = denoise_add_noise(samples, i, eps, z)
          if i % save_rate ==0 or i==timesteps or i<8:
              intermediate.append(samples.detach().cpu().numpy())
      intermediate = np.stack(intermediate)
      return samples, intermediate
  \<close>
  The network is a parameter.  \<open>sample_step\<close> is the loop body up to the assignment to
  \<open>samples\<close>; \<open>sample_loop\<close> runs the body for \<open>i = k, k - 1, \<dots>, 1\<close>.
\<close>

definition sample_noise :: "nat \<Rightarrow> batch \<Rightarrow> rng \<Rightarrow> znoise \<times> rng" where
  "sample_noise i samples g =
     (if i > 1 then (case randn_like samples g of (r, g') \<Rightarrow> (ZTensor r, g')) else (ZInt 0, g))"

definition sample_step ::
  "globals \<Rightarrow> (batch \<Rightarrow> real \<Rightarrow> batch) \<Rightarrow> nat \<Rightarrow> batch \<Rightarrow> rng \<Rightarrow> error + (batch \<times> rng)" where
  "sample_step s nn_model i samples g =
     (let t = real i / real (timesteps s)
      in case sample_noise i samples g of
           (z, g1) \<Rightarrow> (let eps = nn_model samples t in denoise_add_noise s samples i eps z g1))"

fun sample_loop ::
  "globals \<Rightarrow> (batch \<Rightarrow> real \<Rightarrow> batch) \<Rightarrow> nat \<Rightarrow> nat \<Rightarrow> batch \<times> batch list \<times> rng
     \<Rightarrow> error + (batch \<times> batch list \<times> rng)" where
  "sample_loop s nn_model save_rate 0 st = Inr st"
| "sample_loop s nn_model save_rate (Suc k) (samples, intermediate, g) =
     (case sample_step s nn_model (Suc k) samples g of
        Inl e \<Rightarrow> Inl e
      | Inr (samples', g') \<Rightarrow>
          if save_rate = 0 then Inl ZeroDivisionError
          else sample_loop s nn_model save_rate k
                 (samples',
                  if Suc k mod save_rate = 0 \<or> Suc k = timesteps s \<or> Suc k < 8
                  then intermediate @ [samples'] else intermediate,
                  g'))"

definition sample_ddpm ::
  "globals \<Rightarrow> (batch \<Rightarrow> real \<Rightarrow> batch) \<Rightarrow> nat \<Rightarrow> nat \<Rightarrow> nat \<Rightarrow> rng
     \<Rightarrow> error + ((batch \<times> batch list) \<times> rng)" where
  "sample_ddpm s nn_model height n_sample save_rate g =
     (case draw_rows (replicate n_sample (3 * height * height)) g of
        (samples, g0) \<Rightarrow>
          (case sample_loop s nn_model save_rate (timesteps s) (samples, [], g0) of
             Inl e \<Rightarrow> Inl e
           | Inr (samples', intermediate, g') \<Rightarrow>
               if intermediate = [] then Inl ValueError
               else Inr ((samples', intermediate), g')))"

section \<open>Loading checkpoints (L2\_Training and C3W2B)\<close>

text \<open>
  The file system maps a path to the object stored there.  \<^verbatim>\<open>torch.load(path)\<close>
  raises \<open>FileNotFoundError\<close> when the path does not exist, as the traceback recorded in
  the notebook shows.  The framework's \<open>load_state_dict\<close> is a parameter: given the
  current state of a module or optimizer and the loaded dictionary, it returns the new state
  or raises.
\<close>

definition torch_load :: "(string \<rightharpoonup> 'c) \<Rightarrow> string \<Rightarrow> error + 'c" where
  "torch_load fs path = (case fs path of None \<Rightarrow> Inl FileNotFoundError | Some c \<Rightarrow> Inr c)"

record 'p l2_session =
  nn_model_params :: 'p
  nn_model_training :: bool
  l2_stdout :: "string list"

text \<open>
  \<^verbatim>\<open>
  nn_model.load_state_dict(torch.load(f"{save_dir}/model_0.pth", map_location=device))
  nn_model.eval()
  print("Loaded in Model")
  \<close>
  A cell returns the exception that escaped it, if any, and the state it left behind.
  There is no \<open>try\<close> in the cell: the first exception ends it.
\<close>

definition cell_load_model ::
  "('p \<Rightarrow> 'p \<Rightarrow> error + 'p) \<Rightarrow> (string \<rightharpoonup> 'p) \<Rightarrow> string \<Rightarrow> string
     \<Rightarrow> 'p l2_session \<Rightarrow> error option \<times> 'p l2_session" where
  "cell_load_model load_state_dict fs save_dir name s =
     (case torch_load fs (save_dir @ ''/'' @ name) of
        Inl e \<Rightarrow> (Some e, s)
      | Inr sd \<Rightarrow>
          (case load_state_dict (nn_model_params s) sd of
             Inl e \<Rightarrow> (Some e, s)
           | Inr p \<Rightarrow>
               (None, s\<lparr>nn_model_params := p, nn_model_training := False,
                        l2_stdout := l2_stdout s @ [''Loaded in Model'']\<rparr>)))"

record 'p pix2pix_session =
  gen :: 'p
  gen_opt :: 'p
  disc :: 'p
  disc_opt :: 'p

text \<open>
  \<^verbatim>\<open>
  pretrained = True
  if pretrained:
      loaded_state = torch.load("pix2pix_15000.pth")
      gen.load_state_dict(loaded_state["gen"])
      gen_opt.load_state_dict(loaded_state["gen_opt"])
      disc.load_state_dict(loaded_state["disc"])
      disc_opt.load_state_dict(loaded_state["disc_opt"])
  else:
      gen = gen.apply(weights_init)
      disc = disc.apply(weights_init)
  \<close>
  The session is the state reached after the four constructor lines that open the cell.
  The checkpoint is a dictionary of state dictionaries; a missing key raises \<open>KeyError\<close>.
  The weight initialisation of the other branch is a parameter.
\<close>

definition dict_get :: "(string \<rightharpoonup> 'p) \<Rightarrow> string \<Rightarrow> error + 'p" where
  "dict_get d k = (case d k of None \<Rightarrow> Inl KeyError | Some v \<Rightarrow> Inr v)"

definition load_entry ::
  "('p \<Rightarrow> 'p \<Rightarrow> error + 'p) \<Rightarrow> (string \<rightharpoonup> 'p) \<Rightarrow> string \<Rightarrow> 'p \<Rightarrow> error + 'p" where
  "load_entry load_state_dict loaded_state k cur =
     (case dict_get loaded_state k of
        Inl e \<Rightarrow> Inl e
      | Inr sd \<Rightarrow> load_state_dict cur sd)"

definition cell_load_pretrained ::
  "('p \<Rightarrow> 'p \<Rightarrow> error + 'p) \<Rightarrow> ('p \<Rightarrow> 'p) \<Rightarrow> (string \<rightharpoonup> (string \<rightharpoonup> 'p)) \<Rightarrow> bool
     \<Rightarrow> 'p pix2pix_session \<Rightarrow> error option \<times> 'p pix2pix_session" where
  "cell_load_pretrained load_state_dict weights_init fs pretrained s =
     (if pretrained then
        (case torch_load fs ''pix2pix_15000.pth'' of
           Inl e \<Rightarrow> (Some e, s)
         | Inr loaded_state \<Rightarrow>
             (case load_entry load_state_dict loaded_state ''gen'' (gen s) of
                Inl e \<Rightarrow> (Some e, s)
              | Inr g \<Rightarrow>
                 (case load_entry load_state_dict loaded_state ''gen_opt'' (gen_opt s) of
                    Inl e \<Rightarrow> (Some e, s\<lparr>gen := g\<rparr>)
                  | Inr go \<Rightarrow>
                     (case load_entry load_state_dict loaded_state ''disc'' (disc s) of
                        Inl e \<Rightarrow> (Some e, s\<lparr>gen := g, gen_opt := go\<rparr>)
                      | Inr d \<Rightarrow>
                         (case load_entry load_state_dict loaded_state ''disc_opt'' (disc_opt s) of
                            Inl e \<Rightarrow> (Some e, s\<lparr>gen := g, gen_opt := go, disc := d\<rparr>)
                          | Inr dop \<Rightarrow>
                              (None, s\<lparr>gen := g, gen_opt := go, disc := d, disc_opt := dop\<rparr>))))))
      else (None, s\<lparr>gen := weights_init (gen s), disc := weights_init (disc s)\<rparr>))"

text \<open>The cell as written: \<open>pretrained\<close> is assigned \<open>True\<close> just before the test.\<close>

definition cell_pix2pix_setup ::
  "('p \<Rightarrow> 'p \<Rightarrow> error + 'p) \<Rightarrow> ('p \<Rightarrow> 'p) \<Rightarrow> (string \<rightharpoonup> (string \<rightharpoonup> 'p))
     \<Rightarrow> 'p pix2pix_session \<Rightarrow> error option \<times> 'p pix2pix_session" where
  "cell_pix2pix_setup load_state_dict weights_init fs s =
     cell_load_pretrained load_state_dict weights_init fs True s"

section \<open>The WGAN gradient penalty (C2W1)\<close>

text \<open>
  An image has the axes channel, height, width; a batch of images is a list of them.
  \<open>epsilon\<close> has shape \<open>(B, 1, 1, 1)\<close>: one weight per image, broadcast over the
  image.  Operands whose batch sizes or image shapes differ raise \<open>RuntimeError\<close>
  (broadcasting of a singleton batch axis is not modelled).
\<close>

type_synonym image = "real list list list"

definition shape_of :: "image list \<Rightarrow> nat list list list" where
  "shape_of x = map (map (map length)) x"

definition mixed_images :: "image list \<Rightarrow> image list \<Rightarrow> vec \<Rightarrow> image list" where
  "mixed_images real_b fake_b epsilon =
     map (\<lambda>(e, r, f). map2 (map2 (map2 (\<lambda>rv fv. rv * e + fv * (1 - e)))) r f)
       (zip epsilon (zip real_b fake_b))"

text \<open>
  \<^verbatim>\<open>
  def get_gradient(crit, real, fake, epsilon):
      mixed_images = real * epsilon + fake * (1 - epsilon)
      mixed_scores = crit(mixed_images)
      gradient = torch.autograd.grad(
          inputs=mixed_images, outputs=mixed_scores,
          grad_outputs=torch.ones_like(mixed_scores),
          create_graph=True, retain_graph=True)[0]
      return gradient
  \<close>
  The framework's \<open>torch.autograd.grad\<close> is a parameter \<open>autograd\<close>: it receives the
  function that produced the outputs, the inputs and the \<open>grad_outputs\<close> vector.
\<close>

definition get_gradient ::
  "((image list \<Rightarrow> vec) \<Rightarrow> image list \<Rightarrow> vec \<Rightarrow> image list) \<Rightarrow> (image list \<Rightarrow> vec)
     \<Rightarrow> image list \<Rightarrow> image list \<Rightarrow> vec \<Rightarrow> error + image list" where
  "get_gradient autograd crit real_b fake_b epsilon =
     (if length epsilon \<noteq> length real_b \<or> shape_of fake_b \<noteq> shape_of real_b then Inl RuntimeError
      else
        let mixed = mixed_images real_b fake_b epsilon;
            mixed_scores = crit mixed
        in Inr (autograd crit mixed (map (\<lambda>_. 1) mixed_scores)))"

text \<open>
  What the framework documents for \<open>autograd.grad\<close>: the result has the shape of the
  inputs, and its entry at a coordinate is the derivative, in that coordinate, of the
  outputs weighted by \<open>grad_outputs\<close> and summed.  \<open>vjp_at f x v G\<close> says that \<open>G\<close>
  is that result for outputs \<open>f\<close>, inputs \<open>x\<close> and weights \<open>v\<close>.
\<close>

definition upd4 :: "image list \<Rightarrow> nat \<Rightarrow> nat \<Rightarrow> nat \<Rightarrow> nat \<Rightarrow> real \<Rightarrow> image list" where
  "upd4 x b c h w r = x[b := (x ! b)[c := (x ! b ! c)[h := (x ! b ! c ! h)[w := r]]]]"

definition vjp_at :: "(image list \<Rightarrow> vec) \<Rightarrow> image list \<Rightarrow> vec \<Rightarrow> image list \<Rightarrow> bool" where
  "vjp_at f x v G \<longleftrightarrow>
     shape_of G = shape_of x \<and>
     (\<forall>b < length x. \<forall>c < length (x ! b). \<forall>h < length (x ! b ! c). \<forall>w < length (x ! b ! c ! h).
        ((\<lambda>r. \<Sum>k < length v. v ! k * f (upd4 x b c h w r) ! k)
           has_real_derivative G ! b ! c ! h ! w) (at (x ! b ! c ! h ! w)))"

text \<open>
  \<^verbatim>\<open>
  def gradient_penalty(gradient):
      gradient = gradient.view(len(gradient), -1)
      gradient_norm = gradient.norm(2, dim=1)
      penalty = ((gradient_norm - 1) ** 2).mean()
      return penalty
  \<close>
  \<open>view(len(gradient), -1)\<close> flattens every image to a row; on an empty batch the
  framework cannot infer the \<open>-1\<close> axis and raises.
\<close>

definition view_rows :: "image list \<Rightarrow> error + batch" where
  "view_rows g = (if g = [] then Inl RuntimeError else Inr (map (\<lambda>img. concat (concat img)) g))"

definition norm2 :: "vec \<Rightarrow> real" where
  "norm2 v = sqrt (\<Sum>x\<leftarrow>v. \<bar>x\<bar> ^ 2)"

definition mean :: "vec \<Rightarrow> real" where
  "mean v = sum_list v / real (length v)"

definition gradient_penalty :: "image list \<Rightarrow> error + real" where
  "gradient_penalty gradient =
     (case view_rows gradient of
        Inl e \<Rightarrow> Inl e
      | Inr rows \<Rightarrow>
          (let gradient_norm = map norm2 rows
           in Inr (mean (map (\<lambda>n. (n - 1) ^ 2) gradient_norm))))"

section \<open>The Frechet distance (C2W1)\<close>

text \<open>
  \<^verbatim>\<open>
  def frechet_distance(mu_x, mu_y, sigma_x, sigma_y):
      #### START CODE HERE ####
      return None
      #### END CODE HERE ####
  \<close>
  Python's \<open>None\<close> is \<open>None\<close>; a tensor result would be \<open>Some\<close> of its value.
\<close>

definition frechet_distance :: "vec \<Rightarrow> vec \<Rightarrow> real list list \<Rightarrow> real list list \<Rightarrow> real option" where
  "frechet_distance mu_x mu_y sigma_x sigma_y = None"

section \<open>NeRF volume rendering (C2W2)\<close>

text \<open>
  One ray is rendered at a time (the tensor operations of \<open>render_rays\<close> act on every ray
  alike).  \<open>field\<close> is the network composed with the positional encoding, applied to one
  point; it returns the four raw outputs.  The batching of the queries is transparent for
  such a pointwise function.  \<open>u\<close> is the source of the uniform draws of
  \<^verbatim>\<open>torch.rand\<close>.
  \<^verbatim>\<open>
  z_vals = torch.linspace(near, far, N_samples).to(rays_o)
  if rand:
      z_vals = (torch.rand(list(rays_o.shape[:-1]) + [N_samples])
                * (far - near) / N_samples).to(rays_o) + z_vals
  \<close>
\<close>

definition sample_z_vals :: "real \<Rightarrow> real \<Rightarrow> nat \<Rightarrow> bool \<Rightarrow> rng \<Rightarrow> vec" where
  "sample_z_vals near far N_samples rand u =
     (let z_vals = linspace near far N_samples
      in if rand
         then map2 (\<lambda>r z. r * (far - near) / real N_samples + z) (map u [0..<N_samples]) z_vals
         else z_vals)"

definition relu :: "real \<Rightarrow> real" where
  "relu x = max 0 x"

definition sigmoid :: "real \<Rightarrow> real" where
  "sigmoid x = 1 / (1 + exp (- x))"

text \<open>\<^verbatim>\<open>torch.roll(x, 1, dims=-1)\<close>: every entry moves one place up, the last comes first.\<close>

definition roll :: "vec \<Rightarrow> vec" where
  "roll xs = (if xs = [] then [] else last xs # butlast xs)"

text \<open>
  \<^verbatim>\<open>
  oneE10 = torch.tensor([1e10], ...)
  dists = torch.cat([z_vals[..., 1:] - z_vals[..., :-1],
                     oneE10.expand(z_vals[..., :1].shape)], dim=-1)
  alpha = 1 - torch.exp(-sigma_a * dists)
  weights = torch.roll(torch.cumprod(1 - alpha + 1e-10, dim=-1), 1, dims=-1)
  weights[..., 0] = 1
  weights = alpha * weights
  \<close>
  The assignment to index 0 raises \<open>IndexError\<close> on an empty sample axis.
\<close>

definition dists_of :: "vec \<Rightarrow> vec" where
  "dists_of z_vals =
     map2 (\<lambda>a b. a - b) (drop 1 z_vals) (butlast z_vals) @ map (\<lambda>_. 10 ^ 10) (take 1 z_vals)"

definition alpha_of :: "vec \<Rightarrow> vec \<Rightarrow> vec" where
  "alpha_of sigma_a dists = map2 (\<lambda>s d. 1 - exp (- s * d)) sigma_a dists"

definition weights_of :: "vec \<Rightarrow> error + vec" where
  "weights_of alpha =
     (let weights = roll (cumprod (map (\<lambda>a. 1 - a + 1 / 10 ^ 10) alpha))
      in if weights = [] then Inl IndexError
         else Inr (map2 (\<lambda>a w. a * w) alpha (weights[0 := 1])))"

text \<open>
  \<^verbatim>\<open>
  rgb_map = (weights[..., None] * rgb).sum(dim=-2)
  depth_map = (weights * z_vals).sum(dim=-1)
  acc_map = weights.sum(dim=-1)
  \<close>
\<close>

definition sum_rows :: "vec list \<Rightarrow> vec" where
  "sum_rows rows = foldr (map2 (\<lambda>a b. a + b)) rows [0, 0, 0]"

definition volume_render :: "vec \<Rightarrow> vec \<Rightarrow> vec list \<Rightarrow> error + (vec \<times> real \<times> real)" where
  "volume_render z_vals sigma_a rgb =
     (case weights_of (alpha_of sigma_a (dists_of z_vals)) of
        Inl e \<Rightarrow> Inl e
      | Inr weights \<Rightarrow>
          Inr (sum_rows (map2 (\<lambda>w col. map (\<lambda>v. w * v) col) weights rgb),
               sum_list (map2 (\<lambda>w z. w * z) weights z_vals),
               sum_list weights))"

text \<open>
  \<^verbatim>\<open>
  pts = rays_o[..., None, :] + rays_d[..., None, :] * z_vals[..., :, None]
  ...
  radiance_fields_flat = torch.cat(preds, dim=0)
  ...
  sigma_a = F.relu(radiance_fields[..., 3])
  rgb = torch.sigmoid(radiance_fields[..., :3])
  \<close>
  With no query point the batch generator yields nothing and \<^verbatim>\<open>torch.cat\<close> raises on
  the empty list.
\<close>

definition ray_pts :: "vec \<Rightarrow> vec \<Rightarrow> vec \<Rightarrow> vec list" where
  "ray_pts ray_o ray_d z_vals = map (\<lambda>z. map2 (\<lambda>p d. p + d * z) ray_o ray_d) z_vals"

definition density :: "real \<times> real \<times> real \<times> real \<Rightarrow> real" where
  "density rf = (case rf of (r, g, b, s) \<Rightarrow> relu s)"

definition colour :: "real \<times> real \<times> real \<times> real \<Rightarrow> vec" where
  "colour rf = (case rf of (r, g, b, s) \<Rightarrow> [sigmoid r, sigmoid g, sigmoid b])"

definition render_rays ::
  "(vec \<Rightarrow> real \<times> real \<times> real \<times> real) \<Rightarrow> vec \<Rightarrow> vec \<Rightarrow> real \<Rightarrow> real \<Rightarrow> nat \<Rightarrow> bool \<Rightarrow> rng
     \<Rightarrow> error + (vec \<times> real \<times> real)" where
  "render_rays field ray_o ray_d near far N_samples rand u =
     (let z_vals = sample_z_vals near far N_samples rand u;
          pts = ray_pts ray_o ray_d z_vals
      in if pts = [] then Inl RuntimeError
         else
           let radiance_fields = map field pts;
               sigma_a = map density radiance_fields;
               rgb = map colour radiance_fields
           in volume_render z_vals sigma_a rgb)"

section \<open>Depth sampling in single precision (C2W2)\<close>

text \<open>
  The tensors of \<open>render_rays\<close> are single-precision floats, and whether two depths that
  lie close together stay apart depends on the rounding.  \<open>float32\<close> rounds a real number
  to the nearest number with a 24-bit significand, ties to the even significand, as IEEE 754
  single precision does; the exponent range is not bounded, so overflow and underflow are
  not modelled.
\<close>

definition round_half_even :: "real \<Rightarrow> int" where
  "round_half_even y =
     (let f = \<lfloor>y\<rfloor>; r = y - of_int f
      in if r < 1 / 2 then f else if 1 / 2 < r then f + 1 else if even f then f else f + 1)"

definition float32 :: "real \<Rightarrow> real" where
  "float32 x =
     (if x = 0 then 0
      else let ulp = 2 powr (of_int \<lfloor>log 2 \<bar>x\<bar>\<rfloor> - 23)
           in sgn x * (of_int (round_half_even (\<bar>x\<bar> / ulp)) * ulp))"

text \<open>
  \<^verbatim>\<open>torch.linspace(near, far, N_samples)\<close> in single precision, as the framework's kernel
  computes it: the end points are converted, the step is their rounded difference divided by
  \<open>steps - 1\<close>, the first half of the entries is counted up from the start and the second
  half down from the end; every operation rounds its result.  Indices and sample counts
  enter as exact numbers: below \<open>2^24\<close> their conversion to single precision changes
  nothing.
\<close>

definition linspace_f32 :: "real \<Rightarrow> real \<Rightarrow> nat \<Rightarrow> vec" where
  "linspace_f32 start stop steps =
     (if steps = 1 then [float32 start]
      else
        let s = float32 start; e = float32 stop;
            step = float32 (float32 (e - s) / real (steps - 1))
        in map (\<lambda>i. if i < steps div 2 then float32 (s + float32 (step * real i))
                    else float32 (e - float32 (step * real (steps - i - 1))))
             [0..<steps])"

text \<open>
  The sampling and distance lines of \<open>render_rays\<close> with every tensor operation rounded:
  \<^verbatim>\<open>
  z_vals = torch.linspace(near, far, N_samples).to(rays_o)
  if rand:
      z_vals = (torch.rand(list(rays_o.shape[:-1]) + [N_samples])
                * (far - near) / N_samples).to(rays_o) + z_vals
  ...
  dists = torch.cat([z_vals[..., 1:] - z_vals[..., :-1],
                     oneE10.expand(z_vals[..., :1].shape)], dim=-1)
  \<close>
  \<open>far - near\<close> is computed by Python before it meets a tensor (exactly, for the integers
  the notebook passes) and is converted when it multiplies the draws; \<open>u\<close> yields the
  single-precision draws of \<^verbatim>\<open>torch.rand\<close>.
\<close>

definition sample_z_vals_f32 :: "real \<Rightarrow> real \<Rightarrow> nat \<Rightarrow> bool \<Rightarrow> rng \<Rightarrow> vec" where
  "sample_z_vals_f32 near far N_samples rand u =
     (let z_vals = linspace_f32 near far N_samples
      in if rand
         then map2 (\<lambda>r z. float32 (float32 (float32 (r * float32 (far - near)) / real N_samples) + z))
                (map u [0..<N_samples]) z_vals
         else z_vals)"

definition dists_f32 :: "vec \<Rightarrow> vec" where
  "dists_f32 z_vals =
     map2 (\<lambda>a b. float32 (a - b)) (drop 1 z_vals) (butlast z_vals)
       @ map (\<lambda>_. float32 (10 ^ 10)) (take 1 z_vals)"

section \<open>Concrete inputs\<close>

text \<open>
  Inputs at which the theorems below are instantiated: the globals before any cell has run
  (the hyperparameter and schedule cells overwrite every field) and the globals after the
  hyperparameter and schedule cells.
\<close>

definition unset_globals :: globals where
  "unset_globals = \<lparr>timesteps = 0, beta1 = 0, beta2 = 0, b_t = [], a_t = [], ab_t = []\<rparr>"

definition notebook_globals :: globals where
  "notebook_globals = cell_schedule (cell_hyperparameters unset_globals)"

text \<open>The schedule for a single diffusion step.\<close>

definition one_step_globals :: globals where
  "one_step_globals =
     cell_schedule (unset_globals\<lparr>timesteps := 1, beta1 := 1 / 10000, beta2 := 2 / 100\<rparr>)"

text \<open>A network that returns its input, and a random source whose every draw is 1.\<close>

definition echo_net :: "batch \<Rightarrow> real \<Rightarrow> batch" where
  "echo_net x t = x"

definition ones_source :: rng where
  "ones_source k = 1"

text \<open>
  A critic that scores an image by three times the sum of its pixels, and the gradient
  operator that is exact for it: every pixel of image \<open>b\<close> receives three times the weight
  of score \<open>b\<close>.
\<close>

definition linear_critic :: "image list \<Rightarrow> vec" where
  "linear_critic x = map (\<lambda>img. 3 * sum_list (concat (concat img))) x"

definition linear_autograd :: "(image list \<Rightarrow> vec) \<Rightarrow> image list \<Rightarrow> vec \<Rightarrow> image list" where
  "linear_autograd f x v = map (\<lambda>(vb, img). map (map (map (\<lambda>_. 3 * vb))) img) (zip v x)"

text \<open>A \<open>load_state_dict\<close> that accepts every dictionary.\<close>

definition accept_state_dict :: "nat \<Rightarrow> nat \<Rightarrow> error + nat" where
  "accept_state_dict cur sd = Inr sd"

text \<open>
  A radiance field with raw outputs \<open>(0, 0, 0, 1)\<close> everywhere, and a uniform source whose
  every draw is \<open>1/2\<close>.
\<close>

definition uniform_field :: "vec \<Rightarrow> real \<times> real \<times> real \<times> real" where
  "uniform_field p = (0, 0, 0, 1)"

definition half_source :: rng where
  "half_source k = 1 / 2"

text \<open>A uniform source that alternates between \<open>15/16\<close> and 0.\<close>

definition sawtooth_source :: rng where
  "sawtooth_source k = (if even k then 15 / 16 else 0)"

section \<open>Facts about the primitives\<close>

lemma length_linspace: "length (linspace s e n) = n"
  by (simp add: linspace_def)

lemma nth_linspace:
  "i < n \<Longrightarrow> linspace s e n ! i = (if n = 1 then s else s + (e - s) * real i / real (n - 1))"
  by (auto simp add: linspace_def)

lemma length_cumsum_from: "length (cumsum_from acc xs) = length xs"
  by (induction xs arbitrary: acc) simp_all

lemma length_cumprod_from: "length (cumprod_from acc xs) = length xs"
  by (induction xs arbitrary: acc) simp_all

lemma nth_cumprod_from:
  "i < length xs \<Longrightarrow> cumprod_from acc xs ! i = acc * prod_list (take (Suc i) xs)"
proof (induction xs arbitrary: acc i)
  case Nil
  then show ?case by simp
next
  case (Cons x xs)
  then show ?case by (cases i) (simp_all add: mult.assoc)
qed

lemma length_schedule_b: "length (schedule_b b1 b2 T) = T + 1"
  by (simp add: schedule_b_def length_linspace)

lemma nth_schedule_b:
  "i \<le> T \<Longrightarrow> schedule_b b1 b2 T ! i = (if T = 0 then b1 else b1 + (b2 - b1) * real i / real T)"
  by (simp add: schedule_b_def length_linspace nth_linspace)

lemma length_schedule_a: "length (schedule_a b1 b2 T) = T + 1"
  by (simp add: schedule_a_def length_schedule_b)

lemma nth_schedule_a: "i \<le> T \<Longrightarrow> schedule_a b1 b2 T ! i = 1 - schedule_b b1 b2 T ! i"
  by (simp add: schedule_a_def length_schedule_b)

lemma schedule_ab_alternative_0: "schedule_ab_alternative b1 b2 T ! 0 = 1 - b1"
proof -
  have "0 < length (schedule_a b1 b2 T)" by (simp add: length_schedule_a)
  then have "cumprod_from 1 (schedule_a b1 b2 T) ! 0 = 1 * prod_list (take (Suc 0) (schedule_a b1 b2 T))"
    by (rule nth_cumprod_from)
  also have "take (Suc 0) (schedule_a b1 b2 T) = [schedule_a b1 b2 T ! 0]"
    using \<open>0 < length (schedule_a b1 b2 T)\<close> by (simp add: take_Suc_conv_app_nth)
  finally show ?thesis
    by (simp add: schedule_ab_alternative_def cumprod_def nth_schedule_a nth_schedule_b)
qed

lemma schedule_ab_0: "schedule_ab b1 b2 T ! 0 = 1"
  by (simp add: schedule_ab_def cumsum_def length_cumsum_from length_schedule_a)

lemma length_schedule_ab: "length (schedule_ab b1 b2 T) = T + 1"
  by (simp add: schedule_ab_def cumsum_def length_cumsum_from length_schedule_a)

lemma schedule_b_strict_mono:
  assumes "0 < T" "b1 < b2" "i < j" "j \<le> T"
  shows "schedule_b b1 b2 T ! i < schedule_b b1 b2 T ! j"
proof -
  have "real i / real T < real j / real T"
    using assms by (simp add: divide_strict_right_mono)
  then have "(b2 - b1) * (real i / real T) < (b2 - b1) * (real j / real T)"
    using assms by (intro mult_strict_left_mono) auto
  then show ?thesis using assms by (simp add: nth_schedule_b)
qed

lemma notebook_tables:
  "length (b_t notebook_globals) = 501" "length (a_t notebook_globals) = 501"
  "length (ab_t notebook_globals) = 501" "timesteps notebook_globals = 500"
  by (simp_all add: notebook_globals_def cell_schedule_def cell_hyperparameters_def
      length_schedule_b length_schedule_a length_schedule_ab)

lemma notebook_b_1: "b_t notebook_globals ! 1 = 699 / 5000000"
  by (simp add: notebook_globals_def cell_schedule_def cell_hyperparameters_def nth_schedule_b)

lemma draw_rows_shape: "map length (fst (draw_rows ns g)) = ns"
proof (induction ns arbitrary: g)
  case Nil
  show ?case by simp
next
  case (Cons n ns)
  obtain r g1 where d: "draw n g = (r, g1)" by force
  obtain rs g2 where ds: "draw_rows ns g1 = (rs, g2)" by force
  have "length r = n" using d by (auto simp: draw_def)
  moreover have "map length rs = ns" using Cons.IH[of g1] ds by simp
  ultimately show ?case using d ds by simp
qed

lemma randn_like_shape: "map length (fst (randn_like x g)) = map length x"
  by (simp add: randn_like_def draw_rows_shape)

lemma same_shape_length: "map length y = map length x \<Longrightarrow> length y = length x"
  by (metis length_map)

lemma same_shape_row: "map length y = map length x \<Longrightarrow> b < length x \<Longrightarrow> length (y ! b) = length (x ! b)"
  by (metis length_map nth_map)

lemma map2_map2_shape:
  "map length y = map length x \<Longrightarrow> map length (map2 (map2 f) x y) = map length x"
  by (auto simp: list_eq_iff_nth_eq dest: same_shape_length same_shape_row)

lemma map2_map2_nth:
  "map length y = map length x \<Longrightarrow> b < length x \<Longrightarrow> p < length (x ! b)
     \<Longrightarrow> map2 (map2 f) x y ! b ! p = f (x ! b ! p) (y ! b ! p)"
  by (frule same_shape_length, frule (1) same_shape_row) simp

lemma sample_step_last:
  assumes "1 < length (b_t s)" "1 < length (a_t s)" "1 < length (ab_t s)"
      and "map length (nn samples (1 / real (timesteps s))) = map length samples"
  shows "sample_step s nn 1 samples g
           = Inr (denoise_mean s 1 samples (nn samples (1 / real (timesteps s))), g)"
  using assms
  by (simp add: sample_step_def sample_noise_def denoise_add_noise_def denoise_mean_def)

lemma sample_step_inner:
  assumes "1 < i" "i < length (b_t s)" "i < length (a_t s)" "i < length (ab_t s)"
      and "map length (nn samples (real i / real (timesteps s))) = map length samples"
  shows "sample_step s nn i samples g
           = Inr (map2 (map2 (\<lambda>m zv. m + sqrt (b_t s ! i) * zv))
                    (denoise_mean s i samples (nn samples (real i / real (timesteps s))))
                    (fst (randn_like samples g)),
                  snd (randn_like samples g))"
proof -
  obtain z g' where rl: "randn_like samples g = (z, g')" by force
  have "map length z = map length samples"
    using randn_like_shape[of samples g] rl by simp
  then show ?thesis using assms rl
    by (simp add: sample_step_def sample_noise_def denoise_add_noise_def denoise_mean_def)
qed

lemma shape2_length: "map (map length) y = map (map length) x \<Longrightarrow> length y = length x"
  by (metis length_map)

lemma shape2_row:
  "map (map length) y = map (map length) x \<Longrightarrow> c < length x \<Longrightarrow> map length (y ! c) = map length (x ! c)"
  by (metis length_map nth_map)

lemma map2_3_shape:
  assumes "map (map length) y = map (map length) x"
  shows "map (map length) (map2 (map2 (map2 f)) x y) = map (map length) x"
proof -
  have l: "length y = length x" using assms by (rule shape2_length)
  have r: "map length (map2 (map2 f) (x ! c) (y ! c)) = map length (x ! c)" if "c < length x" for c
    using shape2_row[OF assms that] by (rule map2_map2_shape)
  show ?thesis
  proof (rule nth_equalityI)
    show "length (map (map length) (map2 (map2 (map2 f)) x y)) = length (map (map length) x)"
      using l by simp
  next
    fix c assume "c < length (map (map length) (map2 (map2 (map2 f)) x y))"
    then have c: "c < length x" using l by simp
    then have "map (map length) (map2 (map2 (map2 f)) x y) ! c
               = map length (map2 (map2 f) (x ! c) (y ! c))"
      using l by simp
    then show "map (map length) (map2 (map2 (map2 f)) x y) ! c = map (map length) x ! c"
      using r[OF c] c by simp
  qed
qed

lemma map2_3_nth:
  assumes "map (map length) y = map (map length) x" "c < length x" "h < length (x ! c)"
    "w < length (x ! c ! h)"
  shows "map2 (map2 (map2 f)) x y ! c ! h ! w = f (x ! c ! h ! w) (y ! c ! h ! w)"
proof -
  have l: "length y = length x" using assms(1) by (rule shape2_length)
  have r: "map length (y ! c) = map length (x ! c)" using assms(1,2) by (rule shape2_row)
  have "map2 (map2 (map2 f)) x y ! c = map2 (map2 f) (x ! c) (y ! c)"
    using l assms(2) by simp
  then show ?thesis using map2_map2_nth[OF r assms(3,4), of f] by simp
qed

lemma shape_of_length: "shape_of y = shape_of x \<Longrightarrow> length y = length x"
  unfolding shape_of_def by (metis length_map)

lemma shape_of_image:
  "shape_of y = shape_of x \<Longrightarrow> b < length x \<Longrightarrow> map (map length) (y ! b) = map (map length) (x ! b)"
  unfolding shape_of_def by (metis length_map nth_map)

lemma mixed_images_nth:
  assumes "length epsilon = length real_b" "shape_of fake_b = shape_of real_b" "b < length real_b"
  shows "mixed_images real_b fake_b epsilon ! b
         = map2 (map2 (map2 (\<lambda>rv fv. rv * epsilon ! b + fv * (1 - epsilon ! b)))) (real_b ! b) (fake_b ! b)"
  using assms shape_of_length[OF assms(2)] by (simp add: mixed_images_def)

lemma mixed_images_shape:
  assumes "length epsilon = length real_b" "shape_of fake_b = shape_of real_b"
  shows "shape_of (mixed_images real_b fake_b epsilon) = shape_of real_b"
proof -
  have l: "length (mixed_images real_b fake_b epsilon) = length real_b"
    using assms(1) shape_of_length[OF assms(2)] by (simp add: mixed_images_def)
  have "map (map length) (mixed_images real_b fake_b epsilon ! b) = map (map length) (real_b ! b)"
    if "b < length real_b" for b
    unfolding mixed_images_nth[OF assms that]
    using shape_of_image[OF assms(2) that] by (rule map2_3_shape)
  then show ?thesis using l unfolding shape_of_def
    by (intro nth_equalityI) simp_all
qed

lemma mixed_images_entry:
  assumes "length epsilon = length real_b" "shape_of fake_b = shape_of real_b" "b < length real_b"
    "c < length (real_b ! b)" "h < length (real_b ! b ! c)" "w < length (real_b ! b ! c ! h)"
  shows "mixed_images real_b fake_b epsilon ! b ! c ! h ! w
         = real_b ! b ! c ! h ! w * epsilon ! b + fake_b ! b ! c ! h ! w * (1 - epsilon ! b)"
  unfolding mixed_images_nth[OF assms(1-3)]
  using map2_3_nth[OF shape_of_image[OF assms(2,3)] assms(4-6)] .

lemma gradient_penalty_value:
  "G \<noteq> [] \<Longrightarrow> gradient_penalty G
     = Inr ((\<Sum>img\<leftarrow>G. (sqrt (\<Sum>x\<leftarrow>concat (concat img). x ^ 2) - 1) ^ 2) / real (length G))"
  by (simp add: gradient_penalty_def view_rows_def mean_def norm2_def comp_def)

lemma linear_example_mixed: "mixed_images [[[[2]]]] [[[[0]]]] [1 / 2] = [[[[1]]]]"
  by (simp add: mixed_images_def)

lemma linear_example_vjp: "vjp_at linear_critic [[[[1]]]] [1] [[[[3]]]]"
  unfolding vjp_at_def
  by (auto simp: shape_of_def upd4_def linear_critic_def intro!: derivative_eq_intros)

lemma sum_list_nth: "sum_list (xs :: real list) = (\<Sum>i < length xs. xs ! i)"
  by (simp add: sum_list_sum_nth atLeast0LessThan)

lemma prod_list_take: "i \<le> length (xs :: real list) \<Longrightarrow> prod_list (take i xs) = (\<Prod>j < i. xs ! j)"
proof (induction i)
  case 0
  show ?case by simp
next
  case (Suc i)
  then have "take (Suc i) xs = take i xs @ [xs ! i]"
    by (simp add: take_Suc_conv_app_nth)
  then show ?case using Suc by simp
qed

lemma length_sample_z_vals: "length (sample_z_vals near far N rand u) = N"
  by (simp add: sample_z_vals_def length_linspace Let_def)

lemma length_dists_of: "length (dists_of z) = length z"
  by (cases z) (simp_all add: dists_of_def)

lemma nth_dists_of:
  assumes "i < length z"
  shows "dists_of z ! i = (if Suc i < length z then z ! Suc i - z ! i else 10 ^ 10)"
proof (cases "Suc i < length z")
  case True
  then have "i < length (map2 (\<lambda>a b. a - b) (drop 1 z) (butlast z))" by simp
  then have "dists_of z ! i = map2 (\<lambda>a b. a - b) (drop 1 z) (butlast z) ! i"
    by (simp add: dists_of_def nth_append del: length_map)
  also have "\<dots> = z ! Suc i - z ! i" using True by (simp add: nth_butlast)
  finally show ?thesis using True by simp
next
  case False
  then have i: "i = length z - 1" using assms by simp
  have l: "length (map2 (\<lambda>a b. a - b) (drop 1 z) (butlast z)) = length z - 1" by simp
  have "z \<noteq> []" using assms by auto
  then have "take 1 z = [hd z]" by (cases z) simp_all
  then have "dists_of z ! i = 10 ^ 10"
    unfolding dists_of_def i using l by (simp add: nth_append del: length_map)
  then show ?thesis using False by simp
qed

lemma length_alpha_of:
  "length sigma = length d \<Longrightarrow> length (alpha_of sigma d) = length d"
  by (simp add: alpha_of_def)

lemma nth_alpha_of:
  "length sigma = length d \<Longrightarrow> i < length d \<Longrightarrow> alpha_of sigma d ! i = 1 - exp (- sigma ! i * d ! i)"
  by (simp add: alpha_of_def)

lemma nth_roll_cumprod:
  assumes "i < length xs"
  shows "(roll (cumprod xs))[0 := 1] ! i = (\<Prod>j < i. xs ! j)"
proof (cases i)
  case 0
  have "cumprod xs \<noteq> []" using assms by (auto simp: cumprod_def dest: arg_cong[where f=length] simp: length_cumprod_from)
  then show ?thesis using 0 by (simp add: roll_def)
next
  case (Suc k)
  have ne: "cumprod xs \<noteq> []" using assms by (auto simp: cumprod_def dest: arg_cong[where f=length] simp: length_cumprod_from)
  have k: "k < length xs" "Suc k \<le> length xs" using assms Suc by simp_all
  have "(roll (cumprod xs))[0 := 1] ! i = butlast (cumprod xs) ! k"
    using ne Suc by (simp add: roll_def)
  also have "\<dots> = cumprod xs ! k"
    using assms Suc by (simp add: nth_butlast cumprod_def length_cumprod_from)
  also have "\<dots> = prod_list (take (Suc k) xs)"
    using nth_cumprod_from[OF k(1), of 1] by (simp add: cumprod_def)
  also have "\<dots> = (\<Prod>j < Suc k. xs ! j)" using k(2) by (rule prod_list_take)
  finally show ?thesis using Suc by simp
qed

lemma length_roll: "length (roll xs) = length xs"
  by (cases xs) (simp_all add: roll_def)

lemma weights_of_value:
  assumes "alpha \<noteq> []"
  shows "\<exists>ws. weights_of alpha = Inr ws \<and> length ws = length alpha
           \<and> (\<forall>i < length alpha. ws ! i = alpha ! i * (\<Prod>j < i. (1 - alpha ! j + 1 / 10 ^ 10)))"
proof -
  let ?xs = "map (\<lambda>a. 1 - a + 1 / 10 ^ 10) alpha"
  let ?w = "roll (cumprod ?xs)"
  have lw: "length ?w = length alpha"
    by (simp add: length_roll cumprod_def length_cumprod_from)
  then have ne: "?w \<noteq> []" using assms by auto
  have run: "weights_of alpha = Inr (map2 (\<lambda>a w. a * w) alpha (?w[0 := 1]))"
    using ne by (simp add: weights_of_def Let_def)
  have entry: "map2 (\<lambda>a w. a * w) alpha (?w[0 := 1]) ! i
                 = alpha ! i * (\<Prod>j < i. (1 - alpha ! j + 1 / 10 ^ 10))" if "i < length alpha" for i
  proof -
    have "?w[0 := 1] ! i = (\<Prod>j < i. ?xs ! j)"
      using that by (intro nth_roll_cumprod) simp
    also have "\<dots> = (\<Prod>j < i. (1 - alpha ! j + 1 / 10 ^ 10))"
      using that by (intro prod.cong) simp_all
    finally show ?thesis using that lw by simp
  qed
  show ?thesis using run lw entry by auto
qed

lemma sum_rows_value:
  assumes "\<forall>r \<in> set rows. length r = 3"
  shows "length (sum_rows rows) = 3 \<and> (\<forall>ch < 3. sum_rows rows ! ch = (\<Sum>r\<leftarrow>rows. r ! ch))"
  using assms
proof (induction rows)
  case Nil
  show ?case by (auto simp: sum_rows_def less_Suc_eq numeral_3_eq_3)
next
  case (Cons r rows)
  then have ih: "length (sum_rows rows) = 3" "\<And>ch. ch < 3 \<Longrightarrow> sum_rows rows ! ch = (\<Sum>r\<leftarrow>rows. r ! ch)"
    by simp_all
  have r: "length r = 3" using Cons.prems by simp
  have s: "sum_rows (r # rows) = map2 (\<lambda>a b. a + b) r (sum_rows rows)"
    by (simp add: sum_rows_def)
  show ?case unfolding s using r ih by simp
qed

lemma volume_render_value:
  assumes "z \<noteq> []" "length sigma = length z" "length rgb = length z"
      and "\<forall>c \<in> set rgb. length c = 3"
  shows "\<exists>rgb_map depth_map acc_map.
           volume_render z sigma rgb = Inr (rgb_map, depth_map, acc_map)
           \<and> length rgb_map = 3
           \<and> (\<forall>ch < 3. rgb_map ! ch =
                 (\<Sum>i < length z.
                    alpha_of sigma (dists_of z) ! i
                      * (\<Prod>j < i. (1 - alpha_of sigma (dists_of z) ! j + 1 / 10 ^ 10))
                      * rgb ! i ! ch))
           \<and> depth_map =
                 (\<Sum>i < length z.
                    alpha_of sigma (dists_of z) ! i
                      * (\<Prod>j < i. (1 - alpha_of sigma (dists_of z) ! j + 1 / 10 ^ 10))
                      * z ! i)
           \<and> acc_map =
                 (\<Sum>i < length z.
                    alpha_of sigma (dists_of z) ! i
                      * (\<Prod>j < i. (1 - alpha_of sigma (dists_of z) ! j + 1 / 10 ^ 10)))"
proof -
  let ?al = "alpha_of sigma (dists_of z)"
  let ?W = "\<lambda>i. ?al ! i * (\<Prod>j < i. (1 - ?al ! j + 1 / 10 ^ 10))"
  have la: "length ?al = length z"
    using assms(2) by (simp add: length_alpha_of length_dists_of)
  then have "?al \<noteq> []" using assms(1) by auto
  from weights_of_value[OF this] la obtain ws where
    ws: "weights_of ?al = Inr ws" "length ws = length z" "\<And>i. i < length z \<Longrightarrow> ws ! i = ?W i"
    by auto
  let ?rows = "map2 (\<lambda>w col. map (\<lambda>v. w * v) col) ws rgb"
  have run: "volume_render z sigma rgb
               = Inr (sum_rows ?rows, sum_list (map2 (\<lambda>w z. w * z) ws z), sum_list ws)"
    using ws(1) by (simp add: volume_render_def)
  have lr: "length ?rows = length z" using ws(2) assms(3) by simp
  have rows3: "\<forall>r \<in> set ?rows. length r = 3"
    using assms(4) by (auto dest: set_zip_rightD)
  have rgbm: "sum_rows ?rows ! ch = (\<Sum>i < length z. ?W i * rgb ! i ! ch)" if "ch < 3" for ch
  proof -
    have "sum_rows ?rows ! ch = (\<Sum>r\<leftarrow>?rows. r ! ch)"
      using sum_rows_value[OF rows3] that by simp
    also have "\<dots> = (\<Sum>i < length z. map (\<lambda>r. r ! ch) ?rows ! i)"
      using sum_list_nth[of "map (\<lambda>r. r ! ch) ?rows"] lr by simp
    also have "\<dots> = (\<Sum>i < length z. ?W i * rgb ! i ! ch)"
    proof (rule sum.cong)
      fix i assume "i \<in> {..<length z}"
      then have i: "i < length z" by simp
      then have "length (rgb ! i) = 3" using assms(3,4) by simp
      then show "map (\<lambda>r. r ! ch) ?rows ! i = ?W i * rgb ! i ! ch"
        using i ws(2,3) assms(3) that by simp
    qed simp
    finally show ?thesis .
  qed
  have depth: "sum_list (map2 (\<lambda>w z. w * z) ws z) = (\<Sum>i < length z. ?W i * z ! i)"
  proof -
    have "sum_list (map2 (\<lambda>w z. w * z) ws z)
            = (\<Sum>i < length z. map2 (\<lambda>w z. w * z) ws z ! i)"
      using sum_list_nth[of "map2 (\<lambda>w z. w * z) ws z"] ws(2) by simp
    also have "\<dots> = (\<Sum>i < length z. ?W i * z ! i)"
      using ws(2,3) by (intro sum.cong) simp_all
    finally show ?thesis .
  qed
  have acc: "sum_list ws = (\<Sum>i < length z. ?W i)"
    using sum_list_nth[of ws] ws(2,3) by simp
  have l3: "length (sum_rows ?rows) = 3" using sum_rows_value[OF rows3] by simp
  show ?thesis using run l3 rgbm depth acc by simp
qed

lemma sample_step_value:
  assumes "1 \<le> i" "i < length (b_t s)" "i < length (a_t s)" "i < length (ab_t s)"
      and "map length (nn samples (real i / real (timesteps s))) = map length samples"
  shows "\<exists>y g'. sample_step s nn i samples g = Inr (y, g')
           \<and> map length y = map length samples
           \<and> g' = (if 1 < i then snd (randn_like samples g) else g)
           \<and> (\<forall>b < length samples. \<forall>p < length (samples ! b).
                 y ! b ! p =
                   (samples ! b ! p
                      - nn samples (real i / real (timesteps s)) ! b ! p
                          * ((1 - a_t s ! i) / sqrt (1 - ab_t s ! i))) / sqrt (a_t s ! i)
                   + (if 1 < i then sqrt (b_t s ! i) * fst (randn_like samples g) ! b ! p else 0))"
proof (cases "1 < i")
  case True
  let ?eps = "nn samples (real i / real (timesteps s))"
  let ?m = "denoise_mean s i samples ?eps"
  let ?z = "fst (randn_like samples g)"
  have ms: "map length ?m = map length samples"
    unfolding denoise_mean_def using assms(5) by (rule map2_map2_shape)
  have zs: "map length ?z = map length ?m"
    using ms randn_like_shape[of samples g] by simp
  have run: "sample_step s nn i samples g
     = Inr (map2 (map2 (\<lambda>m zv. m + sqrt (b_t s ! i) * zv)) ?m ?z, snd (randn_like samples g))"
    using True assms by (intro sample_step_inner[where nn=nn and samples=samples]) simp_all
  have shape: "map length (map2 (map2 (\<lambda>m zv. m + sqrt (b_t s ! i) * zv)) ?m ?z) = map length samples"
    using map2_map2_shape[OF zs] ms by simp
  have entry: "map2 (map2 (\<lambda>m zv. m + sqrt (b_t s ! i) * zv)) ?m ?z ! b ! p
      = (samples ! b ! p - ?eps ! b ! p * ((1 - a_t s ! i) / sqrt (1 - ab_t s ! i))) / sqrt (a_t s ! i)
        + sqrt (b_t s ! i) * ?z ! b ! p"
    if "b < length samples" "p < length (samples ! b)" for b p
  proof -
    have b': "b < length ?m" using ms that(1) by (metis length_map)
    have p': "p < length (?m ! b)" using same_shape_row[OF ms that(1)] that(2) by simp
    have "map2 (map2 (\<lambda>m zv. m + sqrt (b_t s ! i) * zv)) ?m ?z ! b ! p
            = ?m ! b ! p + sqrt (b_t s ! i) * ?z ! b ! p"
      using map2_map2_nth[OF zs b' p'] .
    moreover have "?m ! b ! p
            = (samples ! b ! p - ?eps ! b ! p * ((1 - a_t s ! i) / sqrt (1 - ab_t s ! i))) / sqrt (a_t s ! i)"
      unfolding denoise_mean_def using map2_map2_nth[OF assms(5) that] .
    ultimately show ?thesis by simp
  qed
  show ?thesis using run shape entry True by auto
next
  case False
  then have i1: "i = 1" using assms(1) by simp
  let ?eps = "nn samples (1 / real (timesteps s))"
  have run: "sample_step s nn 1 samples g = Inr (denoise_mean s 1 samples ?eps, g)"
    using assms unfolding i1 by (intro sample_step_last) simp_all
  have e5: "map length ?eps = map length samples" using assms(5) i1 by simp
  have shape: "map length (denoise_mean s 1 samples ?eps) = map length samples"
    unfolding denoise_mean_def using e5 by (rule map2_map2_shape)
  have entry: "denoise_mean s 1 samples ?eps ! b ! p
      = (samples ! b ! p - ?eps ! b ! p * ((1 - a_t s ! 1) / sqrt (1 - ab_t s ! 1))) / sqrt (a_t s ! 1)"
    if "b < length samples" "p < length (samples ! b)" for b p
    unfolding denoise_mean_def using map2_map2_nth[OF e5 that] .
  show ?thesis unfolding i1 using run shape entry by auto
qed

lemma sample_loop_intermediate_grows:
  "sample_loop s nn r k (x, saved, g) = Inr (x', saved', g') \<Longrightarrow> length saved \<le> length saved'"
proof (induction k arbitrary: x saved g)
  case 0
  then show ?case by simp
next
  case (Suc k)
  from Suc.prems obtain y g1 where st: "sample_step s nn (Suc k) x g = Inr (y, g1)"
    by (auto split: sum.splits)
  from Suc.prems st have r: "r \<noteq> 0" by (auto split: if_splits)
  let ?saved = "if Suc k mod r = 0 \<or> Suc k = timesteps s \<or> Suc k < 8 then saved @ [y] else saved"
  have "sample_loop s nn r k (y, ?saved, g1) = Inr (x', saved', g')"
    using Suc.prems st r by simp
  from Suc.IH[OF this] show ?case by (simp split: if_splits)
qed

lemma sample_step_succeeds:
  assumes "1 \<le> i" "i < length (b_t s)" "i < length (a_t s)" "i < length (ab_t s)"
      and "\<forall>x t. map length (nn x t) = map length x"
  shows "\<exists>y g'. sample_step s nn i x g = Inr (y, g')"
  using sample_step_value[where nn = nn and samples = x and g = g, OF assms(1-4)] assms(5)
  by blast

lemma sample_loop_trace:
  assumes "k < length (b_t s)" "k < length (a_t s)" "k < length (ab_t s)" "0 < r"
      and "\<forall>x t. map length (nn x t) = map length x"
  shows "\<exists>X G saved'. X k = x \<and> G k = g
           \<and> sample_loop s nn r k (x, saved, g) = Inr (X 0, saved', G 0)
           \<and> (\<forall>i. 1 \<le> i \<and> i \<le> k \<longrightarrow> sample_step s nn i (X i) (G i) = Inr (X (i - 1), G (i - 1)))"
  using assms(1-3)
proof (induction k arbitrary: x saved g)
  case 0
  show ?case
    by (rule exI[of _ "\<lambda>_. x"], rule exI[of _ "\<lambda>_. g"]) simp
next
  case (Suc k)
  have "1 \<le> Suc k" by simp
  from sample_step_succeeds[OF this Suc.prems assms(5)] obtain y g1 where
    st: "sample_step s nn (Suc k) x g = Inr (y, g1)" by blast
  let ?saved = "if Suc k mod r = 0 \<or> Suc k = timesteps s \<or> Suc k < 8 then saved @ [y] else saved"
  have k: "k < length (b_t s)" "k < length (a_t s)" "k < length (ab_t s)"
    using Suc.prems by simp_all
  from Suc.IH[OF k, where x = y and saved = ?saved and g = g1] obtain X G saved' where
    ih: "X k = y" "G k = g1" "sample_loop s nn r k (y, ?saved, g1) = Inr (X 0, saved', G 0)"
        "\<And>i. 1 \<le> i \<and> i \<le> k \<Longrightarrow> sample_step s nn i (X i) (G i) = Inr (X (i - 1), G (i - 1))"
    by blast
  let ?X = "X(Suc k := x)" and ?G = "G(Suc k := g)"
  have run: "sample_loop s nn r (Suc k) (x, saved, g) = Inr (?X 0, saved', ?G 0)"
    using st ih(3) assms(4) by simp
  have steps: "sample_step s nn i (?X i) (?G i) = Inr (?X (i - 1), ?G (i - 1))"
    if "1 \<le> i \<and> i \<le> Suc k" for i
  proof (cases "i = Suc k")
    case True
    then show ?thesis using st ih(1,2) by simp
  next
    case False
    then have ik: "1 \<le> i \<and> i \<le> k" using that by simp
    then have "i \<noteq> Suc k" "i - 1 \<noteq> Suc k" by arith+
    then show ?thesis using ih(4)[OF ik] by simp
  qed
  show ?case
    by (rule exI[of _ ?X], rule exI[of _ ?G], rule exI[of _ saved']) (use run steps in simp)
qed

lemma sample_loop_first_saved:
  assumes "0 < timesteps s"
      and "sample_loop s nn r (timesteps s) (x, [], g) = Inr (x', saved', g')"
  shows "saved' \<noteq> []"
proof -
  obtain k where k: "timesteps s = Suc k" using assms(1) by (cases "timesteps s") simp_all
  from assms(2) obtain y g1 where st: "sample_step s nn (Suc k) x g = Inr (y, g1)"
    unfolding k by (auto split: sum.splits)
  from assms(2) st have r: "r \<noteq> 0" unfolding k by (auto split: if_splits)
  have "sample_loop s nn r k (y, [y], g1) = Inr (x', saved', g')"
    using assms(2) st r k by simp
  from sample_loop_intermediate_grows[OF this] show ?thesis by auto
qed

lemma one_step_tables:
  "length (b_t one_step_globals) = 2" "length (a_t one_step_globals) = 2"
  "length (ab_t one_step_globals) = 2" "timesteps one_step_globals = 1"
  by (simp_all add: one_step_globals_def unset_globals_def cell_schedule_def
      length_schedule_b length_schedule_a length_schedule_ab)

lemma one_step_b_1: "b_t one_step_globals ! 1 = 2 / 100"
  by (simp add: one_step_globals_def unset_globals_def cell_schedule_def nth_schedule_b)

lemma ones_source_shift: "(\<lambda>k. ones_source (n + k)) = ones_source"
  by (simp add: ones_source_def fun_eq_iff)

lemma ones_source_initial:
  "draw_rows (replicate 1 (3 * 1 * 1)) ones_source = ([[1, 1, 1]], ones_source)"
proof -
  have "[0..<3] = [0, 1, 2]" by (simp add: upt_rec)
  then have "draw 3 ones_source = ([1, 1, 1], ones_source)"
    by (simp add: draw_def ones_source_shift) (simp add: ones_source_def)
  then show ?thesis by simp
qed

lemma last_iteration:
  assumes "1 < length (b_t s)" "1 < length (a_t s)" "1 < length (ab_t s)"
  shows "sample_loop s echo_net 20 1 (x, saved, g)
           = Inr (denoise_mean s 1 x x, saved @ [denoise_mean s 1 x x], g)"
proof -
  have "sample_step s echo_net 1 x g
          = Inr (denoise_mean s 1 x (echo_net x (1 / real (timesteps s))), g)"
    using assms by (intro sample_step_last) (simp_all add: echo_net_def)
  then have "sample_step s echo_net (Suc 0) x g = Inr (denoise_mean s 1 x x, g)"
    by (simp add: echo_net_def)
  then have "sample_loop s echo_net 20 (Suc 0) (x, saved, g)
           = Inr (denoise_mean s 1 x x, saved @ [denoise_mean s 1 x x], g)"
    by simp
  then show ?thesis by simp
qed

lemma round_half_even_error: "\<bar>of_int (round_half_even y) - y\<bar> \<le> 1 / 2"
proof -
  have "of_int \<lfloor>y\<rfloor> \<le> y" "y < of_int \<lfloor>y\<rfloor> + 1" by linarith+
  then show ?thesis by (auto simp: round_half_even_def Let_def)
qed

lemma float32_error: "\<bar>float32 x - x\<bar> \<le> \<bar>x\<bar> / 2 ^ 24"
proof (cases "x = 0")
  case True
  then show ?thesis by (simp add: float32_def)
next
  case False
  define ulp :: real where "ulp = 2 powr (of_int \<lfloor>log 2 \<bar>x\<bar>\<rfloor> - 23)"
  define r where "r = (of_int (round_half_even (\<bar>x\<bar> / ulp)) :: real)"
  have up: "0 < ulp" by (simp add: ulp_def)
  have f: "float32 x = sgn x * (r * ulp)"
    using False by (simp add: float32_def Let_def ulp_def r_def)
  have x: "x = sgn x * \<bar>x\<bar>" by (simp add: sgn_mult_abs)
  have "float32 x - x = sgn x * (r * ulp - \<bar>x\<bar>)"
    unfolding f using x by (simp add: algebra_simps)
  then have "\<bar>float32 x - x\<bar> = \<bar>r * ulp - \<bar>x\<bar>\<bar>"
    using False by (simp add: abs_mult abs_sgn_eq)
  also have "r * ulp - \<bar>x\<bar> = (r - \<bar>x\<bar> / ulp) * ulp"
    using up by (simp add: algebra_simps)
  also have "\<bar>(r - \<bar>x\<bar> / ulp) * ulp\<bar> = \<bar>r - \<bar>x\<bar> / ulp\<bar> * ulp"
    using up by (simp add: abs_mult)
  also have "\<dots> \<le> (1 / 2) * ulp"
    using round_half_even_error[of "\<bar>x\<bar> / ulp"] up unfolding r_def
    by (intro mult_right_mono) simp_all
  also have "ulp \<le> \<bar>x\<bar> / 2 ^ 23"
  proof -
    have "of_int \<lfloor>log 2 \<bar>x\<bar>\<rfloor> - 23 \<le> log 2 \<bar>x\<bar> - 23" by simp
    then have "ulp \<le> 2 powr (log 2 \<bar>x\<bar> - 23)"
      unfolding ulp_def by (simp only: powr_le_cancel_iff)
    also have "\<dots> = 2 powr (log 2 \<bar>x\<bar>) / 2 powr 23" by (simp add: powr_diff)
    also have "\<dots> = \<bar>x\<bar> / 2 ^ 23" using False by (simp add: powr_numeral)
    finally show ?thesis .
  qed
  finally show ?thesis by simp
qed

lemma float32_error_bound: "\<bar>x\<bar> \<le> c * M \<Longrightarrow> \<bar>float32 x - x\<bar> \<le> c * (M / 2 ^ 24)"
proof -
  assume "\<bar>x\<bar> \<le> c * M"
  then have "\<bar>x\<bar> / 2 ^ 24 \<le> c * M / 2 ^ 24" by (simp add: divide_right_mono)
  with float32_error[of x] show ?thesis by simp
qed

lemma float32_pos: "0 < x \<Longrightarrow> 0 < float32 x"
proof -
  assume x: "0 < x"
  have a: "\<bar>float32 x - x\<bar> \<le> x / 2 ^ 24" using float32_error[of x] x by simp
  have b: "x / 2 ^ 24 < x" using x by simp
  from a b show ?thesis by linarith
qed

lemma floor_log2: "2 ^ k \<le> x \<Longrightarrow> x < 2 ^ Suc k \<Longrightarrow> \<lfloor>log 2 \<bar>x\<bar>\<rfloor> = int k" for x :: real
proof -
  assume a: "2 ^ k \<le> x" "x < 2 ^ Suc k"
  have x: "0 < x" using a(1) less_le_trans[OF zero_less_power[of "2::real" k]] by simp
  have "2 powr real k \<le> x" using a(1) by (simp add: powr_realpow)
  then have lo: "real k \<le> log 2 x" using x by (simp add: le_log_iff)
  have "x < 2 powr real (Suc k)" using a(2) by (simp only: powr_realpow)
  then have "log 2 x < real (Suc k)" using x by (simp only: log_less_iff)
  then have hi: "log 2 x < real k + 1" by simp
  have "\<lfloor>log 2 x\<rfloor> = int k" using lo hi by (simp add: floor_eq_iff)
  then show ?thesis using x by simp
qed

lemma ulp_nat: "(2::real) powr (of_int (int k) - 23) = 2 ^ k / 2 ^ 23"
  by (simp add: powr_diff powr_realpow powr_numeral)

lemma float32_normal:
  assumes "2 ^ k \<le> x" "x < 2 ^ Suc k"
  shows "float32 x = of_int (round_half_even (x * 2 ^ 23 / 2 ^ k)) * (2 ^ k / 2 ^ 23)"
proof -
  have x: "0 < x" using assms(1) less_le_trans[OF zero_less_power[of "2::real" k]] by simp
  have u: "2 powr (of_int \<lfloor>log 2 \<bar>x\<bar>\<rfloor> - 23) = (2::real) ^ k / 2 ^ 23"
    unfolding floor_log2[OF assms] by (rule ulp_nat)
  have q: "\<bar>x\<bar> / (2 ^ k / 2 ^ 23) = x * 2 ^ 23 / 2 ^ k"
    using x by simp
  have "float32 x = sgn x * (of_int (round_half_even (\<bar>x\<bar> / (2 ^ k / 2 ^ 23))) * (2 ^ k / 2 ^ 23))"
  proof -
    have "x \<noteq> 0" using x by simp
    then show ?thesis unfolding float32_def Let_def u by (simp only: if_False)
  qed
  then show ?thesis unfolding q using x by simp
qed

lemma round_half_even_int: "round_half_even (of_int m) = m"
  by (simp add: round_half_even_def)

lemma float32_representable:
  assumes "2 ^ k \<le> x" "x < 2 ^ Suc k" "x * 2 ^ 23 / 2 ^ k = of_int m"
  shows "float32 x = x"
proof -
  have "float32 x = of_int m * (2 ^ k / 2 ^ 23)"
    unfolding float32_normal[OF assms(1,2)] assms(3) round_half_even_int ..
  also have "\<dots> = x" unfolding assms(3)[symmetric] by simp
  finally show ?thesis .
qed

lemma float32_1: "float32 1 = 1"
  by (rule float32_representable[where k = 0 and m = "2 ^ 23"]) simp_all

lemma float32_2: "float32 2 = 2"
  by (rule float32_representable[where k = 1 and m = "2 ^ 23"]) simp_all

lemma float32_16777218: "float32 16777218 = 16777218"
  by (rule float32_representable[where k = 24 and m = 8388609]) simp_all

lemma float32_above_2_24:
  assumes "16777216 \<le> x" "x \<le> 16777217"
  shows "float32 x = 16777216"
proof -
  have r: "(2::real) ^ 24 \<le> x" "x < 2 ^ Suc 24" using assms by simp_all
  have fl: "\<lfloor>x / 2\<rfloor> = 8388608" using assms by (simp add: floor_eq_iff)
  have "round_half_even (x / 2) = 8388608"
    using assms by (auto simp: round_half_even_def Let_def fl)
  then show ?thesis unfolding float32_normal[OF r] by simp
qed

lemma length_linspace_f32: "length (linspace_f32 s e n) = n"
  by (simp add: linspace_f32_def Let_def)

lemma nth_linspace_f32:
  "2 \<le> n \<Longrightarrow> i < n \<Longrightarrow> linspace_f32 s e n ! i =
     (if i < n div 2
      then float32 (float32 s + float32 (float32 (float32 (float32 e - float32 s) / real (n - 1)) * real i))
      else float32 (float32 e - float32 (float32 (float32 (float32 e - float32 s) / real (n - 1))
                                        * real (n - i - 1))))"
  by (simp add: linspace_f32_def Let_def)

lemma length_sample_z_vals_f32: "length (sample_z_vals_f32 near far N rand u) = N"
  by (simp add: sample_z_vals_f32_def length_linspace_f32 Let_def)

lemma nth_sample_z_vals_f32:
  "i < N \<Longrightarrow> sample_z_vals_f32 near far N True u ! i
     = float32 (float32 (float32 (u i * float32 (far - near)) / real N) + linspace_f32 near far N ! i)"
  by (simp add: sample_z_vals_f32_def length_linspace_f32 Let_def)

lemma length_dists_f32: "length (dists_f32 z) = length z"
  by (cases z) (simp_all add: dists_f32_def)

lemma nth_dists_f32:
  assumes "i < length z"
  shows "dists_f32 z ! i = (if Suc i < length z then float32 (z ! Suc i - z ! i) else float32 (10 ^ 10))"
proof (cases "Suc i < length z")
  case True
  then have "i < length (map2 (\<lambda>a b. float32 (a - b)) (drop 1 z) (butlast z))" by simp
  then have "dists_f32 z ! i = map2 (\<lambda>a b. float32 (a - b)) (drop 1 z) (butlast z) ! i"
    by (simp add: dists_f32_def nth_append del: length_map)
  also have "\<dots> = float32 (z ! Suc i - z ! i)" using True by (simp add: nth_butlast)
  finally show ?thesis using True by simp
next
  case False
  then have i: "i = length z - 1" using assms by simp
  have l: "length (map2 (\<lambda>a b. float32 (a - b)) (drop 1 z) (butlast z)) = length z - 1" by simp
  have "z \<noteq> []" using assms by auto
  then have "take 1 z = [hd z]" by (cases z) simp_all
  then have "dists_f32 z ! i = float32 (10 ^ 10)"
    unfolding dists_f32_def i using l by (simp add: nth_append del: length_map)
  then show ?thesis using False by simp
qed

lemma step_f32_error:
  assumes "near < far" "2 \<le> N" "\<bar>near\<bar> \<le> M" "\<bar>far\<bar> \<le> M"
  shows "\<bar>float32 (float32 (float32 far - float32 near) / real (N - 1))
           - (far - near) / real (N - 1)\<bar> \<le> 8 * (M / 2 ^ 24) / real (N - 1)"
proof -
  define E where "E = M / 2 ^ 24"
  define m where "m = real (N - 1)"
  define d1 where "d1 = float32 (float32 far - float32 near)"
  define q where "q = d1 / m"
  define Q where "Q = (far - near) / m"
  define e5 where "e5 = 5 * E / m"
  define e3 where "e3 = 3 * E / m"
  have m: "1 \<le> m" using assms(2) by (simp add: m_def)
  have M: "0 \<le> M" using assms(3) by linarith
  have EM: "0 \<le> E" "16777216 * E = M" using M by (simp_all add: E_def)
  have s: "\<bar>float32 near - near\<bar> \<le> E"
    using float32_error_bound[of near 1 M] assms(3) by (simp add: E_def)
  have e: "\<bar>float32 far - far\<bar> \<le> E"
    using float32_error_bound[of far 1 M] assms(4) by (simp add: E_def)
  have "\<bar>float32 far - float32 near\<bar> \<le> 3 * M"
    using s e assms(1,3,4) EM by linarith
  from float32_error_bound[OF this]
  have "\<bar>d1 - (float32 far - float32 near)\<bar> \<le> 3 * E" unfolding E_def d1_def .
  then have d: "\<bar>d1 - (far - near)\<bar> \<le> 5 * E" using s e by linarith
  have qQ: "\<bar>q - Q\<bar> \<le> e5"
  proof -
    have "q - Q = (d1 - (far - near)) / m"
      by (simp add: q_def Q_def diff_divide_distrib)
    then have "\<bar>q - Q\<bar> = \<bar>d1 - (far - near)\<bar> / m"
      using m by simp
    also have "\<dots> \<le> 5 * E / m" using d m by (intro divide_right_mono) simp_all
    finally show ?thesis unfolding e5_def .
  qed
  have "\<bar>d1\<bar> \<le> 3 * M" using d assms(1,3,4) EM by linarith
  then have "\<bar>d1\<bar> / m \<le> 3 * M / m" using m by (intro divide_right_mono) simp_all
  then have "\<bar>q\<bar> / 2 ^ 24 \<le> 3 * M / m / 2 ^ 24"
    using m by (simp add: q_def divide_right_mono)
  also have "3 * M / m / 2 ^ 24 = e3" by (simp add: E_def e3_def)
  finally have r: "\<bar>float32 q - q\<bar> \<le> e3"
    using float32_error[of q] by linarith
  have "e5 + e3 = 8 * E / m" by (simp add: e5_def e3_def add_divide_distrib[symmetric])
  moreover have "\<bar>float32 q - Q\<bar> \<le> e5 + e3" using qQ r by linarith
  ultimately have "\<bar>float32 q - Q\<bar> \<le> 8 * E / m" by simp
  then show ?thesis unfolding q_def Q_def d1_def m_def E_def .
qed

lemma scaled_step_error:
  assumes "near < far" "2 \<le> N" "\<bar>near\<bar> \<le> M" "\<bar>far\<bar> \<le> M" "k \<le> N - 1"
  shows "\<bar>float32 (float32 (float32 (float32 far - float32 near) / real (N - 1)) * real k)
           - (far - near) * real k / real (N - 1)\<bar> \<le> 11 * (M / 2 ^ 24)"
proof -
  define E where "E = M / 2 ^ 24"
  define m where "m = real (N - 1)"
  define step where "step = float32 (float32 (float32 far - float32 near) / m)"
  define p where "p = step * real k"
  define P where "P = (far - near) * real k / m"
  have m: "1 \<le> m" using assms(2) by (simp add: m_def)
  have k: "0 \<le> real k" "real k \<le> m" using assms(5) by (simp_all add: m_def)
  have M: "0 \<le> M" using assms(3) by linarith
  have EM: "0 \<le> E" "16777216 * E = M" using M by (simp_all add: E_def)
  have D: "0 < far - near" "far - near \<le> 2 * M" using assms(1,3,4) by linarith+
  have st: "\<bar>step - (far - near) / m\<bar> \<le> 8 * E / m"
    using step_f32_error[OF assms(1-4)] unfolding step_def m_def E_def .
  have "p - P = (step - (far - near) / m) * real k"
    by (simp add: p_def P_def algebra_simps)
  then have "\<bar>p - P\<bar> = \<bar>step - (far - near) / m\<bar> * real k"
    using k by (simp add: abs_mult)
  also have "\<dots> \<le> (8 * E / m) * real k" using st k by (intro mult_right_mono) simp_all
  also have "\<dots> \<le> (8 * E / m) * m" using k EM m by (intro mult_left_mono) simp_all
  also have "\<dots> = 8 * E" using m by simp
  finally have pP: "\<bar>p - P\<bar> \<le> 8 * E" .
  have "(far - near) * real k / m \<le> (far - near) * m / m"
    using k D m by (intro divide_right_mono mult_left_mono) simp_all
  then have ex: "0 \<le> P" "P \<le> far - near"
    using k D m by (simp_all add: P_def)
  have "\<bar>p\<bar> \<le> 3 * M" using pP ex D EM by linarith
  from float32_error_bound[OF this]
  have "\<bar>float32 p - p\<bar> \<le> 3 * E" unfolding E_def .
  then have "\<bar>float32 p - P\<bar> \<le> 11 * E" using pP by linarith
  then show ?thesis unfolding p_def P_def step_def m_def E_def .
qed

lemma linspace_f32_error:
  assumes "near < far" "2 \<le> N" "\<bar>near\<bar> \<le> M" "\<bar>far\<bar> \<le> M" "i < N"
  shows "\<bar>linspace_f32 near far N ! i - (near + (far - near) * real i / real (N - 1))\<bar>
           \<le> 14 * (M / 2 ^ 24)"
proof -
  define E where "E = M / 2 ^ 24"
  define m where "m = real (N - 1)"
  define L where "L = near + (far - near) * real i / m"
  have m: "1 \<le> m" using assms(2) by (simp add: m_def)
  have i: "0 \<le> real i" "real i \<le> m" using assms(5) by (simp_all add: m_def)
  have M: "0 \<le> M" using assms(3) by linarith
  have EM: "0 \<le> E" "16777216 * E = M" using M by (simp_all add: E_def)
  have D: "0 < far - near" using assms(1) by simp
  have "(far - near) * real i / m \<le> (far - near) * m / m"
    using i D m by (intro divide_right_mono mult_left_mono) simp_all
  then have "0 \<le> (far - near) * real i / m" "(far - near) * real i / m \<le> far - near"
    using i D m by simp_all
  then have L: "near \<le> L" "L \<le> far" unfolding L_def by linarith+
  then have LM: "\<bar>L\<bar> \<le> M" using assms(3,4) by linarith
  have s: "\<bar>float32 near - near\<bar> \<le> E"
    using float32_error_bound[of near 1 M] assms(3) by (simp add: E_def)
  have e: "\<bar>float32 far - far\<bar> \<le> E"
    using float32_error_bound[of far 1 M] assms(4) by (simp add: E_def)
  show ?thesis
  proof (cases "i < N div 2")
    case True
    define p where "p = float32 (float32 (float32 (float32 far - float32 near) / real (N - 1)) * real i)"
    have "i \<le> N - 1" using assms(5) by simp
    from scaled_step_error[OF assms(1-4) this]
    have p: "\<bar>p - (L - near)\<bar> \<le> 11 * E" unfolding m_def E_def p_def L_def by simp
    have t: "\<bar>float32 near + p - L\<bar> \<le> 12 * E" using s p by linarith
    then have "\<bar>float32 near + p\<bar> \<le> 2 * M" using LM EM by linarith
    from float32_error_bound[OF this]
    have "\<bar>float32 (float32 near + p) - (float32 near + p)\<bar> \<le> 2 * E" unfolding E_def .
    then have "\<bar>float32 (float32 near + p) - L\<bar> \<le> 14 * E" using t by linarith
    moreover have "linspace_f32 near far N ! i = float32 (float32 near + p)"
      using True assms(2,5) unfolding p_def by (simp add: nth_linspace_f32)
    ultimately show ?thesis unfolding L_def m_def E_def by simp
  next
    case False
    define p where "p = float32 (float32 (float32 (float32 far - float32 near) / real (N - 1)) * real (N - i - 1))"
    have kk: "N - i - 1 \<le> N - 1" by simp
    have rk: "real (N - i - 1) = m - real i" using assms(5) by (simp add: m_def of_nat_diff)
    have "far - (far - near) * (m - real i) / m = L"
      using m unfolding L_def by (simp add: field_simps)
    then have X: "(far - near) * real (N - i - 1) / real (N - 1) = far - L"
      unfolding rk m_def[symmetric] by simp
    from scaled_step_error[OF assms(1-4) kk]
    have p: "\<bar>p - (far - L)\<bar> \<le> 11 * E" unfolding E_def p_def X .
    have t: "\<bar>float32 far - p - L\<bar> \<le> 12 * E" using e p by linarith
    then have "\<bar>float32 far - p\<bar> \<le> 2 * M" using LM EM by linarith
    from float32_error_bound[OF this]
    have "\<bar>float32 (float32 far - p) - (float32 far - p)\<bar> \<le> 2 * E" unfolding E_def .
    then have "\<bar>float32 (float32 far - p) - L\<bar> \<le> 14 * E" using t by linarith
    moreover have "linspace_f32 near far N ! i = float32 (float32 far - p)"
      using False assms(2,5) unfolding p_def by (simp add: nth_linspace_f32)
    ultimately show ?thesis unfolding L_def m_def E_def by simp
  qed
qed

lemma jitter_f32_error:
  assumes "near < far" "1 \<le> N" "\<bar>near\<bar> \<le> M" "\<bar>far\<bar> \<le> M" "0 \<le> r" "r < 1"
  shows "\<bar>float32 (float32 (r * float32 (far - near)) / real N) - r * (far - near) / real N\<bar>
           \<le> 8 * (M / 2 ^ 24)"
proof -
  define E where "E = M / 2 ^ 24"
  define n where "n = real N"
  define D where "D = far - near"
  define D1 where "D1 = float32 D"
  define t where "t = r * D1"
  define t' where "t' = float32 t"
  have n: "1 \<le> n" using assms(2) by (simp add: n_def)
  have M: "0 \<le> M" using assms(3) by linarith
  have EM: "0 \<le> E" "16777216 * E = M" using M by (simp_all add: E_def)
  have D: "0 < D" "D \<le> 2 * M" using assms(1,3,4) unfolding D_def by linarith+
  then have "\<bar>D\<bar> \<le> 2 * M" by linarith
  from float32_error_bound[OF this]
  have d1: "\<bar>D1 - D\<bar> \<le> 2 * E" unfolding D1_def E_def .
  define RD where "RD = r * D"
  define q where "q = t' / n"
  define Q where "Q = RD / n"
  have "t - RD = r * (D1 - D)" by (simp add: t_def RD_def algebra_simps)
  then have "\<bar>t - RD\<bar> = r * \<bar>D1 - D\<bar>" using assms(5) by (simp add: abs_mult)
  also have "\<dots> \<le> 1 * \<bar>D1 - D\<bar>" using assms(5,6) by (intro mult_right_mono) simp_all
  finally have "\<bar>t - RD\<bar> \<le> \<bar>D1 - D\<bar>" by simp
  then have tD: "\<bar>t - RD\<bar> \<le> 2 * E" using d1 by linarith
  have "r * D \<le> 1 * D" using assms(6) D by (intro mult_right_mono) simp_all
  then have "RD \<le> D" by (simp add: RD_def)
  moreover have "0 \<le> RD" using assms(5) D by (simp add: RD_def)
  ultimately have rD: "0 \<le> RD" "RD \<le> 2 * M" using D by linarith+
  have "\<bar>t\<bar> \<le> 3 * M" using tD rD EM by linarith
  from float32_error_bound[OF this]
  have "\<bar>t' - t\<bar> \<le> 3 * E" unfolding t'_def E_def .
  then have t'D: "\<bar>t' - RD\<bar> \<le> 5 * E" using tD by linarith
  have "q - Q = (t' - RD) / n" by (simp add: q_def Q_def diff_divide_distrib)
  then have "\<bar>q - Q\<bar> = \<bar>t' - RD\<bar> / n" using n by simp
  also have "\<dots> \<le> \<bar>t' - RD\<bar> / 1" using n by (intro divide_left_mono) simp_all
  finally have "\<bar>q - Q\<bar> \<le> \<bar>t' - RD\<bar>" by simp
  then have qQ: "\<bar>q - Q\<bar> \<le> 5 * E" using t'D by linarith
  have t'M: "\<bar>t'\<bar> \<le> 3 * M" using t'D rD EM by linarith
  have "\<bar>q\<bar> = \<bar>t'\<bar> / n" using n by (simp add: q_def)
  also have "\<dots> \<le> \<bar>t'\<bar> / 1" using n by (intro divide_left_mono) simp_all
  finally have "\<bar>q\<bar> \<le> \<bar>t'\<bar>" by simp
  then have "\<bar>q\<bar> \<le> 3 * M" using t'M by linarith
  from float32_error_bound[OF this]
  have "\<bar>float32 q - q\<bar> \<le> 3 * E" unfolding E_def .
  then have "\<bar>float32 q - Q\<bar> \<le> 8 * E" using qQ by linarith
  then show ?thesis unfolding q_def Q_def RD_def t'_def t_def D1_def D_def n_def E_def
    by simp
qed

lemma sample_z_vals_f32_error:
  assumes "near < far" "2 \<le> N" "\<bar>near\<bar> \<le> M" "\<bar>far\<bar> \<le> M" "0 \<le> u i" "u i < 1" "i < N"
  shows "\<bar>sample_z_vals_f32 near far N True u ! i
            - (u i * (far - near) / real N + (near + (far - near) * real i / real (N - 1)))\<bar>
           \<le> 26 * (M / 2 ^ 24)"
proof -
  define E where "E = M / 2 ^ 24"
  define j where "j = float32 (float32 (u i * float32 (far - near)) / real N)"
  define l where "l = linspace_f32 near far N ! i"
  define m where "m = real (N - 1)"
  define n where "n = real N"
  define P where "P = (far - near) * real i / m"
  define V where "V = u i * (far - near)"
  define U where "U = V / n"
  define L where "L = near + P"
  have M: "0 \<le> M" using assms(3) by linarith
  have EM: "0 \<le> E" "16777216 * E = M" using M by (simp_all add: E_def)
  have m: "1 \<le> m" using assms(2) by (simp add: m_def)
  have n: "1 \<le> n" using assms(2) by (simp add: n_def)
  have i: "0 \<le> real i" "real i \<le> m" using assms(7) by (simp_all add: m_def)
  have D: "0 < far - near" "far - near \<le> 2 * M" using assms(1,3,4) by linarith+
  have "(far - near) * real i / m \<le> (far - near) * m / m"
    using i D m by (intro divide_right_mono mult_left_mono) simp_all
  then have "0 \<le> P" "P \<le> far - near"
    using i D m by (simp_all add: P_def)
  then have L: "near \<le> L" "L \<le> far" unfolding L_def by linarith+
  have "u i * (far - near) \<le> 1 * (far - near)" using assms(6) D by (intro mult_right_mono) simp_all
  then have V1: "V \<le> far - near" by (simp add: V_def)
  have V0: "0 \<le> V" using assms(5) D by (simp add: V_def)
  have "V / n \<le> V / 1" using n V0 by (intro divide_left_mono) simp_all
  then have "U \<le> V" by (simp add: U_def)
  moreover have "0 \<le> U" using V0 n by (simp add: U_def)
  ultimately have U: "0 \<le> U" "U \<le> 2 * M" using V1 D by linarith+
  have N1: "1 \<le> N" using assms(2) by simp
  have jU: "\<bar>j - U\<bar> \<le> 8 * E"
    using jitter_f32_error[OF assms(1) N1 assms(3,4,5,6)] unfolding j_def U_def V_def n_def E_def .
  have lL: "\<bar>l - L\<bar> \<le> 14 * E"
    using linspace_f32_error[OF assms(1-4,7)] unfolding l_def L_def P_def m_def E_def .
  have "\<bar>j + l\<bar> \<le> 4 * M" using jU lL U L assms(3,4) EM by linarith
  from float32_error_bound[OF this]
  have "\<bar>float32 (j + l) - (j + l)\<bar> \<le> 4 * E" unfolding E_def .
  then have "\<bar>float32 (j + l) - (U + L)\<bar> \<le> 26 * E" using jU lL by linarith
  moreover have "sample_z_vals_f32 near far N True u ! i = float32 (j + l)"
    using assms(7) unfolding j_def l_def by (simp add: nth_sample_z_vals_f32)
  ultimately show ?thesis unfolding U_def V_def L_def P_def m_def n_def E_def by simp
qed

lemma jittered_step_positive_f32:
  assumes "near < far" "2 \<le> N" "\<forall>k. 0 \<le> u k \<and> u k < 1"
      and "real N * real (N - 1) * max \<bar>near\<bar> \<bar>far\<bar> \<le> 2 ^ 16 * (far - near)"
      and "Suc i < N"
  shows "sample_z_vals_f32 near far N True u ! i < sample_z_vals_f32 near far N True u ! Suc i"
proof -
  define M where "M = max \<bar>near\<bar> \<bar>far\<bar>"
  define E where "E = M / 2 ^ 24"
  define n where "n = real N"
  define D where "D = far - near"
  define z0 where "z0 = sample_z_vals_f32 near far N True u ! i"
  define z1 where "z1 = sample_z_vals_f32 near far N True u ! Suc i"
  define Z0 where "Z0 = u i * D / n + (near + D * real i / (n - 1))"
  define Z1 where "Z1 = u (Suc i) * D / n + (near + D * real (Suc i) / (n - 1))"
  have n: "2 \<le> n" using assms(2) by (simp add: n_def)
  have n1: "real (N - 1) = n - 1" using assms(2) by (simp add: n_def of_nat_diff)
  have Mb: "\<bar>near\<bar> \<le> M" "\<bar>far\<bar> \<le> M" by (simp_all add: M_def)
  have D: "0 < D" using assms(1) by (simp add: D_def)
  have M: "0 < M" using assms(1) Mb by linarith
  have EM: "0 < E" "16777216 * E = M" using M by (simp_all add: E_def)
  have i: "i < N" using assms(5) by simp
  have u0: "0 \<le> u i" "u i < 1" and u1: "0 \<le> u (Suc i)" "u (Suc i) < 1" using assms(3) by simp_all
  have e0: "\<bar>z0 - Z0\<bar> \<le> 26 * E"
    using sample_z_vals_f32_error[where u = u and i = i, OF assms(1,2) Mb u0 i]
    unfolding z0_def Z0_def E_def D_def n_def n1 .
  have e1: "\<bar>z1 - Z1\<bar> \<le> 26 * E"
    using sample_z_vals_f32_error[where u = u and i = "Suc i", OF assms(1,2) Mb u1 assms(5)]
    unfolding z1_def Z1_def E_def D_def n_def n1 .
  have gap: "D / (n * (n - 1)) < Z1 - Z0"
  proof -
    have q: "0 < D / n" using D n by simp
    have "u i * (D / n) < 1 * (D / n)" using u0 q by (intro mult_strict_right_mono) simp_all
    then have a: "u i * D / n < D / n" by simp
    have "0 \<le> u (Suc i) * (D / n)" using u1 q by (intro mult_nonneg_nonneg) simp_all
    then have b: "0 \<le> u (Suc i) * D / n" by simp
    have "D * real (Suc i) / (n - 1) - D * real i / (n - 1) = (D * real (Suc i) - D * real i) / (n - 1)"
      by (simp only: diff_divide_distrib)
    also have "D * real (Suc i) - D * real i = D" by (simp add: algebra_simps)
    finally have c: "D * real (Suc i) / (n - 1) - D * real i / (n - 1) = D / (n - 1)" .
    have "D / (n - 1) - D / n = D / (n * (n - 1))" using n by (simp add: field_simps)
    then show ?thesis using a b c unfolding Z0_def Z1_def by linarith
  qed
  define G where "G = D / (n * (n - 1))"
  have pos: "0 < n * (n - 1)" using n by simp
  have "n * (n - 1) * M \<le> 2 ^ 16 * D"
    using assms(4) unfolding M_def D_def n_def n1 .
  then have "n * (n - 1) * M / (n * (n - 1)) \<le> 2 ^ 16 * D / (n * (n - 1))"
    using pos by (intro divide_right_mono) simp_all
  moreover have "n * (n - 1) * M / (n * (n - 1)) = M"
    using pos by (simp only: nonzero_mult_div_cancel_left)
  moreover have "2 ^ 16 * D / (n * (n - 1)) = 65536 * G" by (simp add: G_def)
  ultimately have "M \<le> 65536 * G" by simp
  then have "256 * E \<le> G" using EM by linarith
  moreover have "G < Z1 - Z0" using gap by (simp add: G_def)
  ultimately have "z0 < z1" using e0 e1 EM by linarith
  then show ?thesis unfolding z0_def z1_def .
qed

lemma sawtooth_unit: "\<forall>k. 0 \<le> sawtooth_source k \<and> sawtooth_source k < 1"
  by (simp add: sawtooth_source_def)

lemma large_linspace_0: "linspace_f32 16777216 16777218 3 ! 0 = 16777216"
proof -
  have a: "float32 16777216 = 16777216" by (rule float32_above_2_24) simp_all
  have "linspace_f32 16777216 16777218 3 ! 0
          = float32 (float32 16777216 + float32 (float32 (float32 (float32 16777218 - float32 16777216) / real (3 - 1)) * real 0))"
    by (simp add: nth_linspace_f32)
  then show ?thesis by (simp add: a float32_def[of 0])
qed

lemma large_linspace_1: "linspace_f32 16777216 16777218 3 ! 1 = 16777216"
proof -
  have a: "float32 16777216 = 16777216" by (rule float32_above_2_24) simp_all
  have b: "float32 16777217 = 16777216" by (rule float32_above_2_24) simp_all
  have "linspace_f32 16777216 16777218 3 ! 1
          = float32 (float32 16777218 - float32 (float32 (float32 (float32 16777218 - float32 16777216) / real (3 - 1)) * real (3 - 1 - 1)))"
    by (simp add: nth_linspace_f32)
  then show ?thesis by (simp add: a b float32_16777218 float32_2 float32_1)
qed

lemma small_jitter:
  "0 \<le> float32 (float32 (half_source k * float32 (16777218 - 16777216)) / real 3)
   \<and> float32 (float32 (half_source k * float32 (16777218 - 16777216)) / real 3) \<le> 1"
proof -
  have j: "float32 (float32 (half_source k * float32 (16777218 - 16777216)) / real 3) = float32 (1 / 3)"
    by (simp add: half_source_def float32_2 float32_1)
  have "\<bar>float32 (1 / 3) - 1 / 3\<bar> \<le> \<bar>1 / 3\<bar> / 2 ^ 24" by (rule float32_error)
  moreover have "\<bar>1 / 3 :: real\<bar> / 2 ^ 24 \<le> 1 / 3" by simp
  ultimately have "\<bar>float32 (1 / 3) - 1 / 3\<bar> \<le> 1 / 3" by (rule order_trans)
  then have "0 \<le> float32 (1 / 3)" "float32 (1 / 3) \<le> 1" by linarith+
  then show ?thesis unfolding j by simp
qed

lemma schedule_b_range:
  assumes "0 < b1" "b1 \<le> b2" "b2 < 1" "i \<le> T"
  shows "0 < schedule_b b1 b2 T ! i" "schedule_b b1 b2 T ! i < 1"
proof -
  have "b1 \<le> schedule_b b1 b2 T ! i \<and> schedule_b b1 b2 T ! i \<le> b2"
  proof (cases "T = 0")
    case True
    then show ?thesis using assms by (simp add: nth_schedule_b)
  next
    case False
    then have "0 \<le> real i / real T" "real i / real T \<le> 1" using assms by simp_all
    then have q: "0 \<le> real i / real T" "real i / real T \<le> 1" .
    have "0 \<le> (b2 - b1) * (real i / real T)"
      using assms q by (intro mult_nonneg_nonneg) simp_all
    moreover have "(b2 - b1) * (real i / real T) \<le> (b2 - b1) * 1"
      using assms q by (intro mult_left_mono) simp_all
    ultimately have "0 \<le> (b2 - b1) * real i / real T" "(b2 - b1) * real i / real T \<le> b2 - b1"
      by simp_all
    moreover have "schedule_b b1 b2 T ! i = b1 + (b2 - b1) * real i / real T"
      using False assms by (simp add: nth_schedule_b)
    ultimately show ?thesis by linarith
  qed
  then show "0 < schedule_b b1 b2 T ! i" "schedule_b b1 b2 T ! i < 1" using assms by linarith+
qed

lemma nth_cumsum_from:
  "i < length xs \<Longrightarrow> cumsum_from acc xs ! i = acc + sum_list (take (Suc i) xs)"
proof (induction xs arbitrary: acc i)
  case Nil
  then show ?case by simp
next
  case (Cons x xs)
  then show ?case by (cases i) (simp_all add: add.assoc)
qed

lemma sum_list_neg:
  "xs \<noteq> [] \<Longrightarrow> \<forall>x \<in> set xs. x < 0 \<Longrightarrow> sum_list xs < (0 :: real)"
proof (induction xs)
  case Nil
  then show ?case by simp
next
  case (Cons x xs)
  show ?case
  proof (cases "xs = []")
    case True
    then show ?thesis using Cons.prems by simp
  next
    case False
    then have "sum_list xs < 0" using Cons by simp
    then show ?thesis using Cons.prems by simp
  qed
qed

lemma schedule_ab_below_1:
  assumes "0 < b1" "b1 \<le> b2" "b2 < 1" "1 \<le> i" "i \<le> T"
  shows "schedule_ab b1 b2 T ! i < 1"
proof -
  let ?a = "schedule_a b1 b2 T"
  let ?ls = "map ln ?a"
  have li: "i < length ?ls" using assms(5) by (simp add: length_schedule_a)
  have neg: "\<forall>x \<in> set ?ls. x < 0"
  proof
    fix x assume "x \<in> set ?ls"
    then obtain j where j: "j < length ?a" "x = ln (?a ! j)"
      by (auto simp: in_set_conv_nth)
    then have jT: "j \<le> T" by (simp add: length_schedule_a)
    have "0 < ?a ! j" "?a ! j < 1"
      using schedule_b_range[OF assms(1-3) jT] jT by (simp_all add: nth_schedule_a)
    then show "x < 0" using j by simp
  qed
  have "take (Suc i) ?ls \<noteq> []" using li by auto
  moreover have "\<forall>x \<in> set (take (Suc i) ?ls). x < 0"
    using neg in_set_takeD[of _ "Suc i" ?ls] by blast
  ultimately have "sum_list (take (Suc i) ?ls) < 0" by (rule sum_list_neg)
  then have "cumsum ?ls ! i < 0" using nth_cumsum_from[OF li, of 0] by (simp add: cumsum_def)
  then have "exp (cumsum ?ls ! i) < 1" by simp
  moreover have "schedule_ab b1 b2 T ! i = exp (cumsum ?ls ! i)"
    using assms(4) li by (simp add: schedule_ab_def cumsum_def length_cumsum_from)
  ultimately show ?thesis by simp
qed

lemma notebook_tables_in_range:
  "\<forall>i. 1 \<le> i \<and> i \<le> timesteps notebook_globals \<longrightarrow>
         0 \<le> b_t notebook_globals ! i \<and> 0 < a_t notebook_globals ! i \<and> ab_t notebook_globals ! i < 1"
proof (intro allI impI)
  fix i assume "1 \<le> i \<and> i \<le> timesteps notebook_globals"
  then have i: "1 \<le> i" "i \<le> 500" by (simp_all add: notebook_tables)
  have h: "(0::real) < 1 / 10000" "(1 / 10000 :: real) \<le> 2 / 100" "(2 / 100 :: real) < 1" by simp_all
  have g: "b_t notebook_globals = schedule_b (1 / 10000) (2 / 100) 500"
          "a_t notebook_globals = schedule_a (1 / 10000) (2 / 100) 500"
          "ab_t notebook_globals = schedule_ab (1 / 10000) (2 / 100) 500"
    by (simp_all add: notebook_globals_def cell_schedule_def cell_hyperparameters_def)
  show "0 \<le> b_t notebook_globals ! i \<and> 0 < a_t notebook_globals ! i \<and> ab_t notebook_globals ! i < 1"
    unfolding g
    using schedule_b_range[OF h i(2)] schedule_ab_below_1[OF h i] i(2)
    by (simp add: nth_schedule_a)
qed

section \<open>The beta schedule\<close>

text \<open>
  Claim C7.  After the schedule cell, with \<open>timesteps > 0\<close> and \<open>beta1 < beta2\<close> (as
  the hyperparameter cell sets them), the table \<open>b_t\<close> has \<open>timesteps + 1\<close> entries,
  entry \<open>i\<close> is \<open>beta1 + (beta2 - beta1) * i / timesteps\<close> for every \<open>i\<close> from 0 to
  \<open>timesteps\<close>, the first entry is \<open>beta1\<close>, the last is \<open>beta2\<close>, and the entries
  increase strictly with the index.
\<close>

theorem beta_schedule_linear:
  assumes "0 < timesteps s" "beta1 s < beta2 s"
  shows "length (b_t (cell_schedule s)) = timesteps s + 1
         \<and> (\<forall>i \<le> timesteps s.
               b_t (cell_schedule s) ! i
                 = beta1 s + (beta2 s - beta1 s) * real i / real (timesteps s))
         \<and> b_t (cell_schedule s) ! 0 = beta1 s
         \<and> b_t (cell_schedule s) ! timesteps s = beta2 s
         \<and> (\<forall>i j. i < j \<and> j \<le> timesteps s
               \<longrightarrow> b_t (cell_schedule s) ! i < b_t (cell_schedule s) ! j)"
proof -
  have b: "b_t (cell_schedule s) = schedule_b (beta1 s) (beta2 s) (timesteps s)"
    by (simp add: cell_schedule_def)
  show ?thesis unfolding b
  proof (intro conjI allI impI)
    show "length (schedule_b (beta1 s) (beta2 s) (timesteps s)) = timesteps s + 1"
      by (rule length_schedule_b)
  next
    fix i assume "i \<le> timesteps s"
    then show "schedule_b (beta1 s) (beta2 s) (timesteps s) ! i
      = beta1 s + (beta2 s - beta1 s) * real i / real (timesteps s)"
      using assms by (simp add: nth_schedule_b)
  next
    show "schedule_b (beta1 s) (beta2 s) (timesteps s) ! 0 = beta1 s"
      by (simp add: nth_schedule_b)
  next
    show "schedule_b (beta1 s) (beta2 s) (timesteps s) ! timesteps s = beta2 s"
      using assms by (simp add: nth_schedule_b)
  next
    fix i j assume "i < j \<and> j \<le> timesteps s"
    then show "schedule_b (beta1 s) (beta2 s) (timesteps s) ! i
               < schedule_b (beta1 s) (beta2 s) (timesteps s) ! j"
      using assms schedule_b_strict_mono by blast
  qed
qed

theorem beta_schedule_linear_witness:
  "0 < timesteps (cell_hyperparameters unset_globals)
   \<and> beta1 (cell_hyperparameters unset_globals) < beta2 (cell_hyperparameters unset_globals)
   \<and> length (b_t (cell_schedule (cell_hyperparameters unset_globals))) = 501
   \<and> b_t (cell_schedule (cell_hyperparameters unset_globals)) ! 0 = 1 / 10000
   \<and> b_t (cell_schedule (cell_hyperparameters unset_globals)) ! 500 = 2 / 100
   \<and> b_t (cell_schedule (cell_hyperparameters unset_globals)) ! 250
       < b_t (cell_schedule (cell_hyperparameters unset_globals)) ! 251"
proof -
  have h: "0 < timesteps (cell_hyperparameters unset_globals)"
          "beta1 (cell_hyperparameters unset_globals) < beta2 (cell_hyperparameters unset_globals)"
    by (simp_all add: cell_hyperparameters_def)
  have v: "timesteps (cell_hyperparameters unset_globals) = 500"
          "beta1 (cell_hyperparameters unset_globals) = 1 / 10000"
          "beta2 (cell_hyperparameters unset_globals) = 2 / 100"
    by (simp_all add: cell_hyperparameters_def)
  note t = beta_schedule_linear[OF h]
  have "b_t (cell_schedule (cell_hyperparameters unset_globals)) ! 250
       < b_t (cell_schedule (cell_hyperparameters unset_globals)) ! 251"
    using t v by auto
  with t h show ?thesis unfolding v by simp
qed

section \<open>The schedule tables after the analysis cells\<close>

text \<open>
  Claim C5 says that no cell after the schedule cell changes \<open>b_t\<close>, \<open>a_t\<close> or
  \<open>ab_t\<close>.  The noise-schedule analysis cell assigns all three at module level from a
  call with \<open>timesteps = 1000\<close>: after the hyperparameter and schedule cells \<open>b_t\<close> has
  501 entries and \<open>b_t[500] = 0.02\<close>; after the analysis cell it has 1001 entries and
  \<open>b_t[500] = 0.01005\<close>, while \<open>timesteps\<close> is still 500.  The noise-prediction
  theory cell likewise rebinds \<open>ab_t\<close> to a table of 1001 entries.
\<close>

theorem analysis_cell_rebinds_schedule:
  "length (b_t (cell_schedule (cell_hyperparameters s))) = 501
   \<and> length (b_t (cell_noise_schedule_analysis (cell_schedule (cell_hyperparameters s)))) = 1001
   \<and> b_t (cell_schedule (cell_hyperparameters s)) ! 500 = 2 / 100
   \<and> b_t (cell_noise_schedule_analysis (cell_schedule (cell_hyperparameters s))) ! 500 = 201 / 20000
   \<and> timesteps (cell_noise_schedule_analysis (cell_schedule (cell_hyperparameters s))) = 500
   \<and> length (ab_t (cell_noise_prediction_theory (cell_schedule (cell_hyperparameters s)))) = 1001"
  by (simp add: cell_schedule_def cell_hyperparameters_def cell_noise_schedule_analysis_def
      cell_noise_prediction_theory_def analyze_noise_prediction_theory_def
      compute_noise_schedule_and_distribution_def length_schedule_b nth_schedule_b length_schedule_ab)

section \<open>The cumulative table and its alternative\<close>

text \<open>
  Claim C9 says that the table \<open>exp(cumsum(log a_t))\<close> with index 0 overridden to 1 and the
  table \<open>cumprod(a_t)\<close>, which the code's comment calls equivalent, are equal at every index.
  For the defaults of \<open>compute_noise_schedule_and_distribution\<close> they differ at index 0: the
  overridden table holds 1, while the running product starts at \<open>a_t[0]\<close>, which is below 1.
\<close>

theorem cumulative_alpha_tables_differ_at_0:
  "schedule_ab (1 / 10000) (2 / 100) 1000 ! 0 = 1
   \<and> schedule_ab_alternative (1 / 10000) (2 / 100) 1000 ! 0 = schedule_a (1 / 10000) (2 / 100) 1000 ! 0
   \<and> schedule_a (1 / 10000) (2 / 100) 1000 ! 0 < 1
   \<and> schedule_ab (1 / 10000) (2 / 100) 1000 ! 0 \<noteq> schedule_ab_alternative (1 / 10000) (2 / 100) 1000 ! 0"
  by (simp add: schedule_ab_0 schedule_ab_alternative_0 nth_schedule_a nth_schedule_b)

section \<open>Perturbing an input\<close>

text \<open>
  Claim C2.  For a batch \<open>x\<close>, per-image timestep indices \<open>t\<close> within the table
  \<open>ab_t\<close> and a noise batch of the shape of \<open>x\<close>, \<open>perturb_input\<close> returns a batch
  of the same shape whose entry for image \<open>b\<close> and pixel \<open>p\<close> is
  \<open>sqrt(ab_t[t_b]) * x[b][p] + sqrt(1 - ab_t[t_b]) * noise[b][p]\<close>.
\<close>

theorem perturb_input_formula:
  assumes "\<forall>k \<in> set t. k < length (ab_t s)"
      and "length t = length x"
      and "map length noise = map length x"
  shows "\<exists>y. perturb_input s x t noise = Inr y
             \<and> map length y = map length x
             \<and> (\<forall>b < length x. \<forall>p < length (x ! b).
                   y ! b ! p = sqrt (ab_t s ! (t ! b)) * x ! b ! p
                               + sqrt (1 - ab_t s ! (t ! b)) * noise ! b ! p)"
proof -
  let ?f = "\<lambda>(k, xb, nb).
     map2 (\<lambda>xv nv. map sqrt (ab_t s) ! k * xv + sqrt (1 - ab_t s ! k) * nv) xb nb"
  let ?y = "map ?f (zip t (zip x noise))"
  have ln: "length noise = length x"
    using assms(3) by (metis length_map)
  have lrow: "length (noise ! b) = length (x ! b)" if "b < length x" for b
    using assms(3) that ln by (metis nth_map)
  have run: "perturb_input s x t noise = Inr ?y"
    using assms by (auto simp: perturb_input_def)
  have shape: "map length ?y = map length x"
    using assms(2) ln lrow by (auto simp: list_eq_iff_nth_eq)
  have entry: "?y ! b ! p = sqrt (ab_t s ! (t ! b)) * x ! b ! p
                               + sqrt (1 - ab_t s ! (t ! b)) * noise ! b ! p"
    if "b < length x" "p < length (x ! b)" for b p
  proof -
    have "t ! b < length (ab_t s)" using assms(1,2) that by simp
    then show ?thesis using that assms(2) ln lrow[OF that(1)] by simp
  qed
  show ?thesis using run shape entry by blast
qed

theorem perturb_input_formula_witness:
  "250 < length (ab_t notebook_globals)
   \<and> length [250::nat] = length [[1 :: real, 2]]
   \<and> map length [[3 :: real, 4]] = map length [[1 :: real, 2]]
   \<and> (\<exists>y. perturb_input notebook_globals [[1, 2]] [250] [[3, 4]] = Inr y
          \<and> y ! 0 ! 1 = sqrt (ab_t notebook_globals ! 250) * 2
                          + sqrt (1 - ab_t notebook_globals ! 250) * 4)"
proof -
  have h: "\<forall>k \<in> set [250]. k < length (ab_t notebook_globals)"
          "length [250::nat] = length [[1 :: real, 2]]"
          "map length [[3 :: real, 4]] = map length [[1 :: real, 2]]"
    by (simp_all add: notebook_tables)
  from perturb_input_formula[OF h] obtain y where
    y: "perturb_input notebook_globals [[1, 2]] [250] [[3, 4]] = Inr y"
       "\<forall>b < length [[1 :: real, 2]]. \<forall>p < length ([[1 :: real, 2]] ! b).
           y ! b ! p = sqrt (ab_t notebook_globals ! ([250] ! b)) * [[1, 2]] ! b ! p
                       + sqrt (1 - ab_t notebook_globals ! ([250] ! b)) * [[3, 4]] ! b ! p"
    by blast
  from y(2) have "y ! 0 ! 1 = sqrt (ab_t notebook_globals ! 250) * 2
                          + sqrt (1 - ab_t notebook_globals ! 250) * 4"
    by simp
  moreover have "250 < length (ab_t notebook_globals)" by (simp add: notebook_tables)
  ultimately show ?thesis using y(1) h(2,3) by blast
qed

section \<open>The reverse steps of the sampler\<close>

text \<open>
  Claim C3, as amended.  With \<open>timesteps > 0\<close> inside the three tables, a positive
  \<open>save_rate\<close>, a network that returns a batch of the shape of its input, and table
  entries for which no square root of a negative number and no division by zero occurs
  (\<open>b_t[i] \<ge> 0\<close>, \<open>a_t[i] > 0\<close>, \<open>ab_t[i] < 1\<close> at the steps taken, as the schedule
  gives them), \<open>sample_ddpm\<close> returns, and its run is a sequence of samples \<open>X timesteps, \<dots>, X 0\<close>:
  \<open>X timesteps\<close> is the initial draw, \<open>X 0\<close> is the result, and at every step \<open>i\<close> from
  \<open>timesteps\<close> down to 1 each entry of \<open>X (i - 1)\<close> is
  \<open>(x - eps * ((1 - a_t[i]) / sqrt(1 - ab_t[i]))) / sqrt(a_t[i])\<close>, with \<open>x\<close> the entry
  of \<open>X i\<close> and \<open>eps\<close> the network's prediction for \<open>X i\<close> at \<open>i / timesteps\<close>, plus
  \<open>sqrt(b_t[i]) * z\<close> with \<open>z\<close> freshly drawn when \<open>i > 1\<close>; at \<open>i = 1\<close> nothing is
  drawn and nothing is added.
\<close>

theorem sample_ddpm_steps:
  assumes "0 < timesteps s"
      and "timesteps s < length (b_t s)" "timesteps s < length (a_t s)" "timesteps s < length (ab_t s)"
      and "0 < save_rate"
      and "\<forall>x t. map length (nn_model x t) = map length x"
      and "\<forall>i. 1 \<le> i \<and> i \<le> timesteps s \<longrightarrow>
              0 \<le> b_t s ! i \<and> 0 < a_t s ! i \<and> ab_t s ! i < 1"
  shows "\<exists>X G intermediate.
           (X (timesteps s), G (timesteps s)) = draw_rows (replicate n_sample (3 * height * height)) g
           \<and> sample_ddpm s nn_model height n_sample save_rate g = Inr ((X 0, intermediate), G 0)
           \<and> (\<forall>i. 1 \<le> i \<and> i \<le> timesteps s \<longrightarrow>
                 map length (X (i - 1)) = map length (X i)
                 \<and> G (i - 1) = (if 1 < i then snd (randn_like (X i) (G i)) else G i)
                 \<and> (\<forall>b < length (X i). \<forall>p < length (X i ! b).
                       X (i - 1) ! b ! p =
                         (X i ! b ! p
                            - nn_model (X i) (real i / real (timesteps s)) ! b ! p
                                * ((1 - a_t s ! i) / sqrt (1 - ab_t s ! i))) / sqrt (a_t s ! i)
                         + (if 1 < i then sqrt (b_t s ! i) * fst (randn_like (X i) (G i)) ! b ! p
                            else 0)))"
proof -
  obtain x0 g0 where d: "draw_rows (replicate n_sample (3 * height * height)) g = (x0, g0)"
    by force
  from sample_loop_trace[OF assms(2-6), where x = x0 and g = g0 and saved = "[]"] obtain X G saved' where
    t: "X (timesteps s) = x0" "G (timesteps s) = g0"
       "sample_loop s nn_model save_rate (timesteps s) (x0, [], g0) = Inr (X 0, saved', G 0)"
       "\<And>i. 1 \<le> i \<and> i \<le> timesteps s
          \<Longrightarrow> sample_step s nn_model i (X i) (G i) = Inr (X (i - 1), G (i - 1))"
    by blast
  have ne: "saved' \<noteq> []" using assms(1) t(3) by (rule sample_loop_first_saved)
  have run: "sample_ddpm s nn_model height n_sample save_rate g = Inr ((X 0, saved'), G 0)"
    using d t(3) ne by (simp add: sample_ddpm_def)
  have step: "map length (X (i - 1)) = map length (X i)
                 \<and> G (i - 1) = (if 1 < i then snd (randn_like (X i) (G i)) else G i)
                 \<and> (\<forall>b < length (X i). \<forall>p < length (X i ! b).
                       X (i - 1) ! b ! p =
                         (X i ! b ! p
                            - nn_model (X i) (real i / real (timesteps s)) ! b ! p
                                * ((1 - a_t s ! i) / sqrt (1 - ab_t s ! i))) / sqrt (a_t s ! i)
                         + (if 1 < i then sqrt (b_t s ! i) * fst (randn_like (X i) (G i)) ! b ! p
                            else 0))"
    if i: "1 \<le> i \<and> i \<le> timesteps s" for i
  proof -
    have b: "1 \<le> i" "i < length (b_t s)" "i < length (a_t s)" "i < length (ab_t s)"
      using i assms(2-4) by simp_all
    have sh: "map length (nn_model (X i) (real i / real (timesteps s))) = map length (X i)"
      using assms(6) by simp
    from sample_step_value[where nn = nn_model and samples = "X i" and g = "G i", OF b sh]
      t(4)[OF i]
    show ?thesis by auto
  qed
  show ?thesis
    by (rule exI[of _ X], rule exI[of _ G], rule exI[of _ saved']) (use d t(1,2) run step in simp)
qed

text \<open>
  Claim C3 as stated (noise re-injected at every step) fails at the last step \<open>i = 1\<close>.  With
  \<open>timesteps = 1\<close> the whole run of \<open>sample_ddpm\<close> is that step: it returns the mean
  alone, which differs from the mean plus \<open>sqrt(b_t[1])\<close> times the next draw of the source.
  With the notebook's schedule the last iteration of the loop does the same.
\<close>

theorem last_step_adds_no_noise:
  "sample_ddpm one_step_globals echo_net 1 1 20 ones_source
     = Inr (([[(1 - 1 * ((1 - a_t one_step_globals ! 1) / sqrt (1 - ab_t one_step_globals ! 1)))
                 / sqrt (a_t one_step_globals ! 1),
               (1 - 1 * ((1 - a_t one_step_globals ! 1) / sqrt (1 - ab_t one_step_globals ! 1)))
                 / sqrt (a_t one_step_globals ! 1),
               (1 - 1 * ((1 - a_t one_step_globals ! 1) / sqrt (1 - ab_t one_step_globals ! 1)))
                 / sqrt (a_t one_step_globals ! 1)]],
             [[[(1 - 1 * ((1 - a_t one_step_globals ! 1) / sqrt (1 - ab_t one_step_globals ! 1)))
                 / sqrt (a_t one_step_globals ! 1),
               (1 - 1 * ((1 - a_t one_step_globals ! 1) / sqrt (1 - ab_t one_step_globals ! 1)))
                 / sqrt (a_t one_step_globals ! 1),
               (1 - 1 * ((1 - a_t one_step_globals ! 1) / sqrt (1 - ab_t one_step_globals ! 1)))
                 / sqrt (a_t one_step_globals ! 1)]]]),
            ones_source)
   \<and> (1 - 1 * ((1 - a_t one_step_globals ! 1) / sqrt (1 - ab_t one_step_globals ! 1)))
         / sqrt (a_t one_step_globals ! 1)
     \<noteq> (1 - 1 * ((1 - a_t one_step_globals ! 1) / sqrt (1 - ab_t one_step_globals ! 1)))
         / sqrt (a_t one_step_globals ! 1)
       + sqrt (b_t one_step_globals ! 1) * ones_source 0
   \<and> sample_loop notebook_globals echo_net 20 1 ([[1]], [], ones_source)
     = Inr ([[(1 - 1 * ((1 - a_t notebook_globals ! 1) / sqrt (1 - ab_t notebook_globals ! 1)))
               / sqrt (a_t notebook_globals ! 1)]],
            [[[(1 - 1 * ((1 - a_t notebook_globals ! 1) / sqrt (1 - ab_t notebook_globals ! 1)))
               / sqrt (a_t notebook_globals ! 1)]]],
            ones_source)
   \<and> (1 - 1 * ((1 - a_t notebook_globals ! 1) / sqrt (1 - ab_t notebook_globals ! 1)))
         / sqrt (a_t notebook_globals ! 1)
     \<noteq> (1 - 1 * ((1 - a_t notebook_globals ! 1) / sqrt (1 - ab_t notebook_globals ! 1)))
         / sqrt (a_t notebook_globals ! 1)
       + sqrt (b_t notebook_globals ! 1) * ones_source 0"
proof (intro conjI)
  have l: "sample_loop one_step_globals echo_net 20 (timesteps one_step_globals)
             ([[1, 1, 1]], [], ones_source)
           = Inr (denoise_mean one_step_globals 1 [[1, 1, 1]] [[1, 1, 1]],
                  [] @ [denoise_mean one_step_globals 1 [[1, 1, 1]] [[1, 1, 1]]], ones_source)"
    unfolding one_step_tables by (rule last_iteration) (simp_all add: one_step_tables)
  show "sample_ddpm one_step_globals echo_net 1 1 20 ones_source
     = Inr (([[(1 - 1 * ((1 - a_t one_step_globals ! 1) / sqrt (1 - ab_t one_step_globals ! 1)))
                 / sqrt (a_t one_step_globals ! 1),
               (1 - 1 * ((1 - a_t one_step_globals ! 1) / sqrt (1 - ab_t one_step_globals ! 1)))
                 / sqrt (a_t one_step_globals ! 1),
               (1 - 1 * ((1 - a_t one_step_globals ! 1) / sqrt (1 - ab_t one_step_globals ! 1)))
                 / sqrt (a_t one_step_globals ! 1)]],
             [[[(1 - 1 * ((1 - a_t one_step_globals ! 1) / sqrt (1 - ab_t one_step_globals ! 1)))
                 / sqrt (a_t one_step_globals ! 1),
               (1 - 1 * ((1 - a_t one_step_globals ! 1) / sqrt (1 - ab_t one_step_globals ! 1)))
                 / sqrt (a_t one_step_globals ! 1),
               (1 - 1 * ((1 - a_t one_step_globals ! 1) / sqrt (1 - ab_t one_step_globals ! 1)))
                 / sqrt (a_t one_step_globals ! 1)]]]),
            ones_source)"
    unfolding sample_ddpm_def ones_source_initial
    by (simp add: l) (simp add: denoise_mean_def)
next
  show "(1 - 1 * ((1 - a_t one_step_globals ! 1) / sqrt (1 - ab_t one_step_globals ! 1)))
         / sqrt (a_t one_step_globals ! 1)
     \<noteq> (1 - 1 * ((1 - a_t one_step_globals ! 1) / sqrt (1 - ab_t one_step_globals ! 1)))
         / sqrt (a_t one_step_globals ! 1)
       + sqrt (b_t one_step_globals ! 1) * ones_source 0"
    using one_step_b_1 by (simp add: ones_source_def)
next
  have "sample_loop notebook_globals echo_net 20 1 ([[1]], [], ones_source)
          = Inr (denoise_mean notebook_globals 1 [[1]] [[1]],
                 [] @ [denoise_mean notebook_globals 1 [[1]] [[1]]], ones_source)"
    by (rule last_iteration) (simp_all add: notebook_tables)
  then show "sample_loop notebook_globals echo_net 20 1 ([[1]], [], ones_source)
     = Inr ([[(1 - 1 * ((1 - a_t notebook_globals ! 1) / sqrt (1 - ab_t notebook_globals ! 1)))
               / sqrt (a_t notebook_globals ! 1)]],
            [[[(1 - 1 * ((1 - a_t notebook_globals ! 1) / sqrt (1 - ab_t notebook_globals ! 1)))
               / sqrt (a_t notebook_globals ! 1)]]],
            ones_source)"
    by (simp add: denoise_mean_def)
next
  show "(1 - 1 * ((1 - a_t notebook_globals ! 1) / sqrt (1 - ab_t notebook_globals ! 1)))
         / sqrt (a_t notebook_globals ! 1)
     \<noteq> (1 - 1 * ((1 - a_t notebook_globals ! 1) / sqrt (1 - ab_t notebook_globals ! 1)))
         / sqrt (a_t notebook_globals ! 1)
       + sqrt (b_t notebook_globals ! 1) * ones_source 0"
    using notebook_b_1 by (simp add: ones_source_def)
qed

theorem sample_ddpm_steps_witness:
  "0 < timesteps notebook_globals
   \<and> timesteps notebook_globals < length (b_t notebook_globals)
   \<and> timesteps notebook_globals < length (a_t notebook_globals)
   \<and> timesteps notebook_globals < length (ab_t notebook_globals)
   \<and> 0 < (20 :: nat)
   \<and> (\<forall>x t. map length (echo_net x t) = map length x)
   \<and> (\<exists>x saved g'. sample_ddpm notebook_globals echo_net 16 32 20 ones_source = Inr ((x, saved), g'))"
proof -
  have h: "0 < timesteps notebook_globals"
    "timesteps notebook_globals < length (b_t notebook_globals)"
    "timesteps notebook_globals < length (a_t notebook_globals)"
    "timesteps notebook_globals < length (ab_t notebook_globals)"
    "0 < (20 :: nat)"
    "\<forall>x t. map length (echo_net x t) = map length x"
    "\<forall>i. 1 \<le> i \<and> i \<le> timesteps notebook_globals \<longrightarrow>
         0 \<le> b_t notebook_globals ! i \<and> 0 < a_t notebook_globals ! i
         \<and> ab_t notebook_globals ! i < 1"
    using notebook_tables_in_range by (simp_all add: notebook_tables echo_net_def)
  from sample_ddpm_steps[where nn_model = echo_net and height = 16 and n_sample = 32
      and g = ones_source, OF h]
  have "\<exists>x saved g'. sample_ddpm notebook_globals echo_net 16 32 20 ones_source = Inr ((x, saved), g')"
    by blast
  then show ?thesis using h(1-6) by blast
qed

section \<open>A missing checkpoint file\<close>

text \<open>
  Claim C8.  When the checkpoint file named in a loading cell does not exist, the cell ends
  with \<open>FileNotFoundError\<close> escaping it and leaves the session exactly as it was: the
  parameters are unchanged, \<open>eval()\<close> has not run and nothing has been printed.  This
  holds for the model-loading cells of the diffusion notebook and for the pretrained branch
  of the Pix2Pix notebook, whatever \<open>load_state_dict\<close> would have done.
\<close>

theorem missing_checkpoint_raises:
  "(fs (save_dir @ ''/'' @ name) = None \<longrightarrow>
      cell_load_model load_state_dict fs save_dir name s = (Some FileNotFoundError, s))
   \<and> (fs2 ''pix2pix_15000.pth'' = None \<longrightarrow>
      cell_pix2pix_setup load_state_dict2 weights_init fs2 s2 = (Some FileNotFoundError, s2))"
  by (simp add: cell_load_model_def cell_pix2pix_setup_def cell_load_pretrained_def torch_load_def)

theorem missing_checkpoint_raises_witness:
  "(Map.empty :: string \<rightharpoonup> nat) (''./weights/'' @ ''/'' @ ''model_0.pth'') = None
   \<and> cell_load_model accept_state_dict Map.empty ''./weights/'' ''model_0.pth''
         \<lparr>nn_model_params = 7, nn_model_training = True, l2_stdout = []\<rparr>
       = (Some FileNotFoundError, \<lparr>nn_model_params = 7, nn_model_training = True, l2_stdout = []\<rparr>)
   \<and> (Map.empty :: string \<rightharpoonup> (string \<rightharpoonup> nat)) ''pix2pix_15000.pth'' = None
   \<and> cell_pix2pix_setup accept_state_dict Suc Map.empty \<lparr>gen = 1, gen_opt = 2, disc = 3, disc_opt = 4\<rparr>
       = (Some FileNotFoundError, \<lparr>gen = 1, gen_opt = 2, disc = 3, disc_opt = 4\<rparr>)"
  using missing_checkpoint_raises[of "Map.empty :: string \<rightharpoonup> nat" "''./weights/''" "''model_0.pth''"
      accept_state_dict "\<lparr>nn_model_params = 7, nn_model_training = True, l2_stdout = []\<rparr>"
      "Map.empty :: string \<rightharpoonup> (string \<rightharpoonup> nat)" accept_state_dict Suc
      "\<lparr>gen = 1, gen_opt = 2, disc = 3, disc_opt = 4\<rparr>"]
  by simp

section \<open>The Frechet distance of identical Gaussians\<close>

text \<open>
  Claim C6 says that \<open>frechet_distance(mu, mu, sigma, sigma)\<close> is 0.  The body of
  \<open>frechet_distance\<close> in the notebook is \<^verbatim>\<open>return None\<close>: at the input of the
  notebook's own unit test (mean \<open>[0, 2]\<close>, identity covariance) it returns \<open>None\<close>,
  not the tensor 0 that the test asserts.
\<close>

theorem frechet_distance_returns_None:
  "frechet_distance [0, 2] [0, 2] [[1, 0], [0, 1]] [[1, 0], [0, 1]] = None
   \<and> frechet_distance [0, 2] [0, 2] [[1, 0], [0, 1]] [[1, 0], [0, 1]] \<noteq> Some 0"
  by (simp add: frechet_distance_def)

section \<open>The gradient penalty\<close>

text \<open>
  Claim C1.  For a non-empty batch, equally shaped \<open>real\<close> and \<open>fake\<close> and one weight
  per image, and with \<open>autograd\<close> meeting its contract at the call made, \<open>get_gradient\<close>
  returns a tensor \<open>G\<close> of the shape of the images such that, at every coordinate, the mixed
  image is \<open>real * epsilon + fake * (1 - epsilon)\<close> and \<open>G\<close> is the derivative of the
  sum of the critic's scores in that coordinate of the mixed image; and
  \<open>gradient_penalty G\<close> is the mean over the batch of \<open>(norm - 1)^2\<close>, where
  \<open>norm\<close> is the square root of the sum of squares of the flattened image's gradient.
\<close>

theorem gradient_and_penalty:
  assumes "length epsilon = length real_b" "shape_of fake_b = shape_of real_b" "real_b \<noteq> []"
      and "vjp_at crit (mixed_images real_b fake_b epsilon)
             (map (\<lambda>_. 1) (crit (mixed_images real_b fake_b epsilon)))
             (autograd crit (mixed_images real_b fake_b epsilon)
                (map (\<lambda>_. 1) (crit (mixed_images real_b fake_b epsilon))))"
  shows "\<exists>G. get_gradient autograd crit real_b fake_b epsilon = Inr G
           \<and> shape_of G = shape_of real_b
           \<and> (\<forall>b < length real_b. \<forall>c < length (real_b ! b). \<forall>h < length (real_b ! b ! c).
                \<forall>w < length (real_b ! b ! c ! h).
                  mixed_images real_b fake_b epsilon ! b ! c ! h ! w
                    = real_b ! b ! c ! h ! w * epsilon ! b + fake_b ! b ! c ! h ! w * (1 - epsilon ! b)
                  \<and> ((\<lambda>r. \<Sum>k < length (crit (mixed_images real_b fake_b epsilon)).
                             crit (upd4 (mixed_images real_b fake_b epsilon) b c h w r) ! k)
                       has_real_derivative G ! b ! c ! h ! w)
                      (at (mixed_images real_b fake_b epsilon ! b ! c ! h ! w)))
           \<and> gradient_penalty G
               = Inr ((\<Sum>img\<leftarrow>G. (sqrt (\<Sum>x\<leftarrow>concat (concat img). x ^ 2) - 1) ^ 2)
                        / real (length G))"
proof -
  let ?m = "mixed_images real_b fake_b epsilon"
  let ?v = "map (\<lambda>_. 1 :: real) (crit ?m)"
  let ?G = "autograd crit ?m ?v"
  have run: "get_gradient autograd crit real_b fake_b epsilon = Inr ?G"
    using assms(1,2) by (simp add: get_gradient_def Let_def)
  have ms: "shape_of ?m = shape_of real_b"
    using assms(1,2) by (rule mixed_images_shape)
  have gs: "shape_of ?G = shape_of real_b"
    using assms(4) ms by (simp add: vjp_at_def)
  have ne: "?G \<noteq> []"
    using shape_of_length[OF gs] assms(3) by auto
  have ml: "length ?m = length real_b" using ms by (rule shape_of_length)
  have mi: "map (map length) (?m ! b) = map (map length) (real_b ! b)" if "b < length real_b" for b
    using ms that by (rule shape_of_image)
  have entry: "?m ! b ! c ! h ! w
                 = real_b ! b ! c ! h ! w * epsilon ! b + fake_b ! b ! c ! h ! w * (1 - epsilon ! b)
               \<and> ((\<lambda>r. \<Sum>k < length (crit ?m). crit (upd4 ?m b c h w r) ! k)
                     has_real_derivative ?G ! b ! c ! h ! w) (at (?m ! b ! c ! h ! w))"
    if bc: "b < length real_b" "c < length (real_b ! b)" "h < length (real_b ! b ! c)"
       "w < length (real_b ! b ! c ! h)" for b c h w
  proof
    show "?m ! b ! c ! h ! w
            = real_b ! b ! c ! h ! w * epsilon ! b + fake_b ! b ! c ! h ! w * (1 - epsilon ! b)"
      using assms(1,2) bc by (rule mixed_images_entry)
  next
    have b': "b < length ?m" using ml bc(1) by simp
    have c': "c < length (?m ! b)" using shape2_length[OF mi[OF bc(1)]] bc(2) by simp
    have r: "map length (?m ! b ! c) = map length (real_b ! b ! c)"
      using mi[OF bc(1)] bc(2) by (rule shape2_row)
    have h': "h < length (?m ! b ! c)" using same_shape_length[OF r] bc(3) by simp
    have w': "w < length (?m ! b ! c ! h)" using same_shape_row[OF r bc(3)] bc(4) by simp
    have d: "((\<lambda>r. \<Sum>k < length ?v. ?v ! k * crit (upd4 ?m b c h w r) ! k)
                has_real_derivative ?G ! b ! c ! h ! w) (at (?m ! b ! c ! h ! w))"
      using assms(4) b' c' h' w' unfolding vjp_at_def by blast
    have "(\<lambda>r. \<Sum>k < length ?v. ?v ! k * crit (upd4 ?m b c h w r) ! k)
            = (\<lambda>r. \<Sum>k < length (crit ?m). crit (upd4 ?m b c h w r) ! k)"
      by (rule ext) simp
    then show "((\<lambda>r. \<Sum>k < length (crit ?m). crit (upd4 ?m b c h w r) ! k)
                     has_real_derivative ?G ! b ! c ! h ! w) (at (?m ! b ! c ! h ! w))"
      using d by simp
  qed
  show ?thesis using run gs entry gradient_penalty_value[OF ne] by blast
qed

theorem gradient_and_penalty_witness:
  "length [1 / 2 :: real] = length [[[[2 :: real]]]]
   \<and> shape_of [[[[0]]]] = shape_of [[[[2]]]]
   \<and> [[[[2 :: real]]]] \<noteq> []
   \<and> vjp_at linear_critic (mixed_images [[[[2]]]] [[[[0]]]] [1 / 2])
        (map (\<lambda>_. 1) (linear_critic (mixed_images [[[[2]]]] [[[[0]]]] [1 / 2])))
        (linear_autograd linear_critic (mixed_images [[[[2]]]] [[[[0]]]] [1 / 2])
           (map (\<lambda>_. 1) (linear_critic (mixed_images [[[[2]]]] [[[[0]]]] [1 / 2]))))
   \<and> get_gradient linear_autograd linear_critic [[[[2]]]] [[[[0]]]] [1 / 2] = Inr [[[[3]]]]
   \<and> gradient_penalty [[[[3]]]] = Inr 4"
proof -
  have h: "length [1 / 2 :: real] = length [[[[2 :: real]]]]"
    "shape_of [[[[0]]]] = shape_of [[[[2]]]]"
    "[[[[2 :: real]]]] \<noteq> []"
    "vjp_at linear_critic (mixed_images [[[[2]]]] [[[[0]]]] [1 / 2])
        (map (\<lambda>_. 1) (linear_critic (mixed_images [[[[2]]]] [[[[0]]]] [1 / 2])))
        (linear_autograd linear_critic (mixed_images [[[[2]]]] [[[[0]]]] [1 / 2])
           (map (\<lambda>_. 1) (linear_critic (mixed_images [[[[2]]]] [[[[0]]]] [1 / 2]))))"
    using linear_example_vjp
    by (simp_all add: shape_of_def linear_example_mixed linear_critic_def linear_autograd_def)
  have g: "get_gradient linear_autograd linear_critic [[[[2]]]] [[[[0]]]] [1 / 2] = Inr [[[[3]]]]"
    by (simp add: get_gradient_def shape_of_def linear_example_mixed linear_critic_def
        linear_autograd_def)
  from gradient_and_penalty[where autograd = linear_autograd and crit = linear_critic, OF h]
  have "gradient_penalty [[[[3]]]]
          = Inr ((\<Sum>img\<leftarrow>[[[[3]]]]. (sqrt (\<Sum>x\<leftarrow>concat (concat img). x ^ 2) - 1) ^ 2)
                   / real (length [[[[3 :: real]]]]))"
    unfolding g by auto
  also have "\<dots> = Inr 4"
  proof -
    have "sqrt 9 = 3" using real_sqrt_abs[of 3] by simp
    then show ?thesis by simp
  qed
  finally show ?thesis using h g by blast
qed

section \<open>Alpha compositing along a ray\<close>

text \<open>
  Claim C4.  For a ray with at least one sample, \<open>render_rays\<close> returns; with
  \<open>sigma_i\<close> and \<open>c_i\<close> the density and colour the network gives at sample \<open>i\<close>,
  \<open>delta_i\<close> the difference of consecutive depths (and \<open>1e10\<close> at the last sample),
  \<open>alpha_i = 1 - exp(- sigma_i * delta_i)\<close> and \<open>T_i\<close> the product over \<open>j < i\<close> of
  \<open>1 - alpha_j + 1e-10\<close> (1 at \<open>i = 0\<close>), every channel of the colour returned is the sum
  over the samples of \<open>T_i * (1 - exp(- sigma_i * delta_i)) * c_i\<close>; the depth and the
  accumulated opacity are the sums of \<open>T_i * alpha_i * z_i\<close> and of \<open>T_i * alpha_i\<close>.
\<close>

theorem render_rays_compositing:
  assumes "0 < N_samples"
  shows
    "let z = sample_z_vals near far N_samples rand u;
         rf = (\<lambda>i. field (ray_pts ray_o ray_d z ! i));
         sigma = (\<lambda>i. density (rf i));
         c = (\<lambda>i. colour (rf i));
         delta = (\<lambda>i. if Suc i < N_samples then z ! Suc i - z ! i else 10 ^ 10);
         alpha = (\<lambda>i. 1 - exp (- sigma i * delta i));
         T = (\<lambda>i. \<Prod>j < i. (1 - alpha j + 1 / 10 ^ 10))
     in \<exists>rgb_map depth_map acc_map.
          render_rays field ray_o ray_d near far N_samples rand u = Inr (rgb_map, depth_map, acc_map)
          \<and> length rgb_map = 3
          \<and> (\<forall>ch < 3. rgb_map ! ch = (\<Sum>i < N_samples. T i * (1 - exp (- sigma i * delta i)) * c i ! ch))
          \<and> depth_map = (\<Sum>i < N_samples. T i * alpha i * z ! i)
          \<and> acc_map = (\<Sum>i < N_samples. T i * alpha i)"
proof -
  define z where "z = sample_z_vals near far N_samples rand u"
  define rfs where "rfs = map field (ray_pts ray_o ray_d z)"
  define sg where "sg = map density rfs"
  define rgb where "rgb = map colour rfs"
  have lz: "length z = N_samples" by (simp add: z_def length_sample_z_vals)
  have lp: "length (ray_pts ray_o ray_d z) = N_samples" by (simp add: ray_pts_def lz)
  have ne: "z \<noteq> []" using assms lz by auto
  have ls: "length sg = length z" and lc: "length rgb = length z"
    by (simp_all add: sg_def rgb_def rfs_def lp lz)
  have c3: "\<forall>c \<in> set rgb. length c = 3"
    by (auto simp: rgb_def colour_def split: prod.splits)
  have pne: "ray_pts ray_o ray_d z \<noteq> []" using lp assms by auto
  have run: "render_rays field ray_o ray_d near far N_samples rand u = volume_render z sg rgb"
    using pne by (simp add: render_rays_def z_def sg_def rgb_def rfs_def Let_def)
  have sgi: "sg ! i = density (field (ray_pts ray_o ray_d z ! i))" if "i < N_samples" for i
    using that lp by (simp add: sg_def rfs_def)
  have rgbi: "rgb ! i = colour (field (ray_pts ray_o ray_d z ! i))" if "i < N_samples" for i
    using that lp by (simp add: rgb_def rfs_def)
  have ali: "alpha_of sg (dists_of z) ! i
       = 1 - exp (- density (field (ray_pts ray_o ray_d z ! i))
                    * (if Suc i < N_samples then z ! Suc i - z ! i else 10 ^ 10))"
    if "i < N_samples" for i
    using that ls lz sgi[OF that]
    by (simp add: nth_alpha_of length_dists_of nth_dists_of)
  let ?al = "\<lambda>i. 1 - exp (- density (field (ray_pts ray_o ray_d z ! i))
                    * (if Suc i < N_samples then z ! Suc i - z ! i else 10 ^ 10))"
  have Ti: "(\<Prod>j < i. (1 - alpha_of sg (dists_of z) ! j + 1 / 10 ^ 10))
              = (\<Prod>j < i. (1 - ?al j + 1 / 10 ^ 10))" if "i < N_samples" for i
    using that by (intro prod.cong refl) (simp add: ali)
  from volume_render_value[OF ne ls lc c3] obtain rgb_map depth_map acc_map where
    v: "volume_render z sg rgb = Inr (rgb_map, depth_map, acc_map)"
       "length rgb_map = 3"
       "\<And>ch. ch < 3 \<Longrightarrow> rgb_map ! ch =
                 (\<Sum>i < length z.
                    alpha_of sg (dists_of z) ! i
                      * (\<Prod>j < i. (1 - alpha_of sg (dists_of z) ! j + 1 / 10 ^ 10))
                      * rgb ! i ! ch)"
       "depth_map =
                 (\<Sum>i < length z.
                    alpha_of sg (dists_of z) ! i
                      * (\<Prod>j < i. (1 - alpha_of sg (dists_of z) ! j + 1 / 10 ^ 10))
                      * z ! i)"
       "acc_map =
                 (\<Sum>i < length z.
                    alpha_of sg (dists_of z) ! i
                      * (\<Prod>j < i. (1 - alpha_of sg (dists_of z) ! j + 1 / 10 ^ 10)))"
    by blast
  have r1: "rgb_map ! ch = (\<Sum>i < N_samples. (\<Prod>j < i. (1 - ?al j + 1 / 10 ^ 10)) * ?al i
                 * colour (field (ray_pts ray_o ray_d z ! i)) ! ch)" if "ch < 3" for ch
    unfolding v(3)[OF that] lz
    by (intro sum.cong refl) (simp add: ali Ti rgbi)
  have r2: "depth_map = (\<Sum>i < N_samples. (\<Prod>j < i. (1 - ?al j + 1 / 10 ^ 10)) * ?al i * z ! i)"
    unfolding v(4) lz
    by (intro sum.cong refl) (simp add: ali Ti)
  have r3: "acc_map = (\<Sum>i < N_samples. (\<Prod>j < i. (1 - ?al j + 1 / 10 ^ 10)) * ?al i)"
    unfolding v(5) lz
    by (intro sum.cong refl) (simp add: ali Ti)
  show ?thesis
    unfolding Let_def z_def[symmetric] run
    using v(1,2) r1 r2 r3 by blast
qed

theorem render_rays_compositing_witness:
  "0 < (2 :: nat)
   \<and> (\<exists>rgb_map depth_map acc_map.
        render_rays uniform_field [0, 0, 0] [0, 0, 1] 2 6 2 False half_source
          = Inr (rgb_map, depth_map, acc_map)
        \<and> length rgb_map = 3
        \<and> acc_map = (\<Sum>i < 2.
             (\<Prod>j < i. (1 - (1 - exp (- density (uniform_field
                   (ray_pts [0, 0, 0] [0, 0, 1] (sample_z_vals 2 6 2 False half_source) ! j))
                 * (if Suc j < 2 then sample_z_vals 2 6 2 False half_source ! Suc j
                                       - sample_z_vals 2 6 2 False half_source ! j else 10 ^ 10)))
               + 1 / 10 ^ 10))
             * (1 - exp (- density (uniform_field
                   (ray_pts [0, 0, 0] [0, 0, 1] (sample_z_vals 2 6 2 False half_source) ! i))
                 * (if Suc i < 2 then sample_z_vals 2 6 2 False half_source ! Suc i
                                       - sample_z_vals 2 6 2 False half_source ! i else 10 ^ 10)))))"
proof -
  have h: "0 < (2 :: nat)" by simp
  from render_rays_compositing[OF h, where field = uniform_field and ray_o = "[0, 0, 0]"
      and ray_d = "[0, 0, 1]" and near = 2 and far = 6 and rand = False and u = half_source]
  show ?thesis unfolding Let_def using h by blast
qed

section \<open>Jittered depths\<close>

text \<open>
  Claim C10, as amended.  With \<open>rand=True\<close>, \<open>near < far\<close>, at least two samples and
  uniform draws in \<open>[0, 1)\<close>, the jittered depths computed in single precision increase
  strictly along the ray and every entry of \<open>dists\<close> is positive, provided the spacing
  left after the jitter is wide enough for the precision:
  \<open>N_samples * (N_samples - 1) * max(|near|, |far|) \<le> 2^16 * (far - near)\<close>, with the
  magnitudes away from overflow and underflow.  The notebook's \<open>near = 2\<close>, \<open>far = 6\<close>,
  \<open>N_samples = 64\<close> satisfy this.
\<close>

theorem jittered_depths_increase_f32:
  assumes "near < far" "2 \<le> N_samples" "\<forall>k. 0 \<le> u k \<and> u k < 1"
      and "real N_samples * real (N_samples - 1) * max \<bar>near\<bar> \<bar>far\<bar> \<le> 2 ^ 16 * (far - near)"
      and "1 / 2 ^ 100 \<le> max \<bar>near\<bar> \<bar>far\<bar>" "max \<bar>near\<bar> \<bar>far\<bar> \<le> 2 ^ 100"
  shows "(\<forall>i. Suc i < N_samples \<longrightarrow>
             sample_z_vals_f32 near far N_samples True u ! i
               < sample_z_vals_f32 near far N_samples True u ! Suc i)
         \<and> (\<forall>d \<in> set (dists_f32 (sample_z_vals_f32 near far N_samples True u)). 0 < d)"
proof (intro conjI allI impI ballI)
  fix i assume "Suc i < N_samples"
  with assms(1-4) show "sample_z_vals_f32 near far N_samples True u ! i
               < sample_z_vals_f32 near far N_samples True u ! Suc i"
    by (rule jittered_step_positive_f32)
next
  let ?z = "sample_z_vals_f32 near far N_samples True u"
  fix d assume "d \<in> set (dists_f32 ?z)"
  then obtain i where i: "i < length ?z" "d = dists_f32 ?z ! i"
    by (auto simp: in_set_conv_nth length_dists_f32)
  show "0 < d"
  proof (cases "Suc i < length ?z")
    case True
    then have "Suc i < N_samples" by (simp add: length_sample_z_vals_f32)
    with assms(1-4) have "?z ! i < ?z ! Suc i" by (rule jittered_step_positive_f32)
    then have "0 < float32 (?z ! Suc i - ?z ! i)" by (intro float32_pos) simp
    then show ?thesis using i True by (simp add: nth_dists_f32)
  next
    case False
    have "0 < float32 (10 ^ 10)" by (intro float32_pos) simp
    then show ?thesis using i False by (simp add: nth_dists_f32)
  qed
qed

theorem jittered_depths_increase_f32_witness:
  "(2 :: real) < 6 \<and> (2 :: nat) \<le> 64
   \<and> (\<forall>k. 0 \<le> sawtooth_source k \<and> sawtooth_source k < 1)
   \<and> real (64 :: nat) * real ((64 :: nat) - 1) * max \<bar>2\<bar> \<bar>6\<bar> \<le> 2 ^ 16 * (6 - 2 :: real)
   \<and> 1 / 2 ^ 100 \<le> max \<bar>2 :: real\<bar> \<bar>6\<bar> \<and> max \<bar>2 :: real\<bar> \<bar>6\<bar> \<le> 2 ^ 100
   \<and> sample_z_vals_f32 2 6 64 True sawtooth_source ! 0 < sample_z_vals_f32 2 6 64 True sawtooth_source ! Suc 0
   \<and> 0 < dists_f32 (sample_z_vals_f32 2 6 64 True sawtooth_source) ! 0"
proof -
  have h: "(2 :: real) < 6" "(2 :: nat) \<le> 64"
    "\<forall>k. 0 \<le> sawtooth_source k \<and> sawtooth_source k < 1"
    "real (64 :: nat) * real ((64 :: nat) - 1) * max \<bar>2\<bar> \<bar>6\<bar> \<le> 2 ^ 16 * (6 - 2 :: real)"
    "1 / 2 ^ 100 \<le> max \<bar>2 :: real\<bar> \<bar>6\<bar>" "max \<bar>2 :: real\<bar> \<bar>6\<bar> \<le> 2 ^ 100"
    using sawtooth_unit by simp_all
  have "dists_f32 (sample_z_vals_f32 2 6 64 True sawtooth_source) ! 0
          \<in> set (dists_f32 (sample_z_vals_f32 2 6 64 True sawtooth_source))"
    by (intro nth_mem) (simp add: length_dists_f32 length_sample_z_vals_f32)
  with jittered_depths_increase_f32[OF h] h show ?thesis by simp
qed

text \<open>
  Claim C10 as stated (for every \<open>near < far\<close> and \<open>N_samples \<ge> 2\<close>) fails in single
  precision: with \<open>near = 2^24\<close>, \<open>far = 2^24 + 2\<close> and three samples the first two depths
  are both \<open>2^24\<close>, so the depths do not increase and the first distance is 0.
\<close>

theorem large_depths_collide:
  "sample_z_vals_f32 16777216 16777218 3 True half_source ! 0 = 16777216
   \<and> sample_z_vals_f32 16777216 16777218 3 True half_source ! 1 = 16777216
   \<and> \<not> sample_z_vals_f32 16777216 16777218 3 True half_source ! 0
           < sample_z_vals_f32 16777216 16777218 3 True half_source ! 1
   \<and> dists_f32 (sample_z_vals_f32 16777216 16777218 3 True half_source) ! 0 = 0
   \<and> \<not> 0 < dists_f32 (sample_z_vals_f32 16777216 16777218 3 True half_source) ! 0"
proof -
  let ?z = "sample_z_vals_f32 16777216 16777218 3 True half_source"
  have e0: "?z ! 0 = float32 (float32 (float32 (half_source 0 * float32 (16777218 - 16777216)) / real 3)
                        + linspace_f32 16777216 16777218 3 ! 0)"
    by (rule nth_sample_z_vals_f32) simp
  have z0: "?z ! 0 = 16777216"
    unfolding e0 large_linspace_0 using small_jitter[of 0]
    by (intro float32_above_2_24) linarith+
  have e1: "?z ! 1 = float32 (float32 (float32 (half_source 1 * float32 (16777218 - 16777216)) / real 3)
                        + linspace_f32 16777216 16777218 3 ! 1)"
    by (rule nth_sample_z_vals_f32) simp
  have z1: "?z ! 1 = 16777216"
    unfolding e1 large_linspace_1 using small_jitter[of 1]
    by (intro float32_above_2_24) linarith+
  have "dists_f32 ?z ! 0 = float32 (?z ! Suc 0 - ?z ! 0)"
    by (simp add: nth_dists_f32 length_sample_z_vals_f32)
  then have "dists_f32 ?z ! 0 = 0" using z0 z1 by (simp add: float32_def)
  then show ?thesis using z0 z1 by simp
qed

end
